theory Spec2Isabelle
  imports Main "HOL-Library.Log_Nat"
begin

section \<open>Strings\<close>

text \<open>
  A Python \<open>str\<close> is modelled as a \<open>string\<close> whose characters are the code points
  below 256; text with code points beyond that range is outside the model.
\<close>

definition nl :: char where
  "nl = CHR 0x0A"

text \<open>\<open>sep.join(xs)\<close>.\<close>

fun str_join :: "string \<Rightarrow> string list \<Rightarrow> string" where
  "str_join sep [] = []"
| "str_join sep [x] = x"
| "str_join sep (x # y # ys) = x @ sep @ str_join sep (y # ys)"

text \<open>
  The characters \<open>str.strip()\<close> removes: those for which \<open>str.isspace()\<close> holds
  (tab, line feed, vertical tab, form feed, carriage return, the four separators
  0x1C-0x1F, space, NEL and the no-break space).
\<close>

definition str_isspace :: "char \<Rightarrow> bool" where
  "str_isspace c = ((of_char c :: nat) \<in> {9, 10, 11, 12, 13, 28, 29, 30, 31, 32, 133, 160})"

definition strip :: "string \<Rightarrow> string" where
  "strip s = rev (dropWhile str_isspace (rev (dropWhile str_isspace s)))"

text \<open>\<open>s.split(c)[0]\<close>: the text before the first occurrence of \<open>c\<close>.\<close>

definition split_first :: "char \<Rightarrow> string \<Rightarrow> string" where
  "split_first c s = takeWhile (\<lambda>x. x \<noteq> c) s"

text \<open>\<open>s.split(c)[-1]\<close>: the text after the last occurrence of \<open>c\<close>.\<close>

definition split_last :: "char \<Rightarrow> string \<Rightarrow> string" where
  "split_last c s = rev (takeWhile (\<lambda>x. x \<noteq> c) (rev s))"

subsection \<open>\<open>sanitize_filename\<close>\<close>

text \<open>
  The character class of the pattern \<open>r'[\\/*?:"<>|]'\<close>: backslash, slash, star,
  question mark, colon, double quote, less-than, greater-than and the vertical bar.
\<close>

definition invalid_chars :: "char list" where
  "invalid_chars =
     [CHR 0x5C, CHR ''/'', CHR ''*'', CHR ''?'', CHR '':'', CHR 0x22, CHR ''<'', CHR ''>'', CHR ''|'']"

text \<open>
  \<open>re.sub('[...]', repl, s)\<close> for a pattern that is one character class: scanning from the
  left, every character of the class is replaced by \<open>repl\<close>, every other one is kept.
\<close>

primrec re_sub_class :: "char list \<Rightarrow> string \<Rightarrow> string \<Rightarrow> string" where
  "re_sub_class cls repl [] = []"
| "re_sub_class cls repl (c # cs) = (if c \<in> set cls then repl else [c]) @ re_sub_class cls repl cs"

definition sanitize_filename :: "string \<Rightarrow> string" where
  "sanitize_filename title = re_sub_class invalid_chars [] title"

text \<open>
  The specification's wording of the same function: the title with the characters of
  the set deleted.
\<close>

definition delete_chars :: "char set \<Rightarrow> string \<Rightarrow> string" where
  "delete_chars S title = filter (\<lambda>c. c \<notin> S) title"

subsection \<open>\<open>os.path.join\<close>\<close>

text \<open>
  \<open>posixpath.join(a, b)\<close> of the Python library (the program targets macOS): an absolute
  \<open>b\<close> replaces \<open>a\<close>; otherwise \<open>b\<close> is appended, after a slash unless \<open>a\<close> is empty
  or already ends with one.
\<close>

definition os_path_join :: "string \<Rightarrow> string \<Rightarrow> string" where
  "os_path_join a b =
     (if b \<noteq> [] \<and> hd b = CHR ''/'' then b
      else if a = [] \<or> last a = CHR ''/'' then a @ b
      else a @ ''/'' @ b)"

definition video_file_of :: "string \<Rightarrow> string \<Rightarrow> string" where
  "video_file_of output_path sanitized_title = os_path_join output_path (sanitized_title @ ''.mp4'')"

definition audio_file_of :: "string \<Rightarrow> string \<Rightarrow> string" where
  "audio_file_of output_path sanitized_title = os_path_join output_path (sanitized_title @ ''.mp3'')"

section \<open>Python floats\<close>

text \<open>
  A Python \<open>float\<close> is an IEEE 754 binary64 value: a rational with a 53-bit significand,
  an infinity or a NaN. The sign of zero is not modelled (no operation below observes it).
\<close>

datatype pyfloat = Finite rat | PosInf | NegInf | NaN

text \<open>For \<open>x > 0\<close>, the exponent \<open>e\<close> with \<open>2^e \<le> x < 2^(e+1)\<close>.\<close>

definition ilog2 :: "rat \<Rightarrow> int" where
  "ilog2 x = (if 1 \<le> x then bitlen \<lfloor>x\<rfloor> - 1 else - bitlen (\<lceil>1 / x\<rceil> - 1))"

definition round_half_even :: "rat \<Rightarrow> int" where
  "round_half_even q =
     (let f = \<lfloor>q\<rfloor>; d = q - of_int f
      in if d < 1 / 2 then f else if 1 / 2 < d then f + 1 else if even f then f else f + 1)"

text \<open>The spacing of the doubles around \<open>x > 0\<close> (the subnormals share the spacing \<open>2^-1074\<close>).\<close>

definition ulp :: "rat \<Rightarrow> rat" where
  "ulp x = 2 powi (max (ilog2 x) (- 1022) - 52)"

definition round_mag :: "rat \<Rightarrow> rat" where
  "round_mag x = (if x = 0 then 0 else of_int (round_half_even (x / ulp x)) * ulp x)"

text \<open>Round to nearest, ties to even; a result of magnitude \<open>2^1024\<close> overflows to infinity.\<close>

definition round_double :: "rat \<Rightarrow> pyfloat" where
  "round_double x =
     (let r = round_mag \<bar>x\<bar>
      in if 2 powi 1024 \<le> r then (if 0 < x then PosInf else NegInf)
         else Finite (if x < 0 then - r else r))"

fun float_sgn :: "pyfloat \<Rightarrow> int" where
  "float_sgn (Finite a) = (if a = 0 then 0 else if 0 < a then 1 else - 1)"
| "float_sgn PosInf = 1"
| "float_sgn NegInf = - 1"
| "float_sgn NaN = 0"

fun float_mul :: "pyfloat \<Rightarrow> pyfloat \<Rightarrow> pyfloat" where
  "float_mul (Finite a) (Finite b) = round_double (a * b)"
| "float_mul x y =
     (if x = NaN \<or> y = NaN \<or> float_sgn x * float_sgn y = 0 then NaN
      else if 0 < float_sgn x * float_sgn y then PosInf else NegInf)"

fun float_add :: "pyfloat \<Rightarrow> pyfloat \<Rightarrow> pyfloat" where
  "float_add (Finite a) (Finite b) = round_double (a + b)"
| "float_add NaN y = NaN"
| "float_add x NaN = NaN"
| "float_add PosInf NegInf = NaN"
| "float_add NegInf PosInf = NaN"
| "float_add PosInf y = PosInf"
| "float_add x PosInf = PosInf"
| "float_add NegInf y = NegInf"
| "float_add x NegInf = NegInf"

text \<open>
  \<open>int(x)\<close> truncates towards zero; it raises \<open>ValueError\<close> on a NaN and \<open>OverflowError\<close>
  on an infinity (the value \<open>None\<close>).
\<close>

fun py_int :: "pyfloat \<Rightarrow> int option" where
  "py_int (Finite a) = Some (if 0 \<le> a then \<lfloor>a\<rfloor> else \<lceil>a\<rceil>)"
| "py_int x = None"

subsection \<open>\<open>float(s)\<close>\<close>

text \<open>
  The grammar of the Python reference for the argument of \<open>float\<close> (whitespace around
  the number, a sign, \<open>inf\<close>, \<open>infinity\<close> and \<open>nan\<close> in any case, digits grouped by
  single underscores, a fraction, an exponent); the value is the decimal number rounded
  to the nearest double. \<open>None\<close> is the \<open>ValueError\<close>.
  \<open>float\<close> strips less than \<open>str.strip\<close> does: not the separators 0x1C-0x1F.
\<close>

definition float_isspace :: "char \<Rightarrow> bool" where
  "float_isspace c = ((of_char c :: nat) \<in> {9, 10, 11, 12, 13, 32, 133, 160})"

definition is_digit :: "char \<Rightarrow> bool" where
  "is_digit c = (c \<in> set ''0123456789'')"

definition digit_value :: "char \<Rightarrow> int" where
  "digit_value c = of_char c - 48"

fun digitpart :: "string \<Rightarrow> bool" where
  "digitpart [] = False"
| "digitpart [c] = is_digit c"
| "digitpart (c # d # cs) =
     (is_digit c \<and> (if d = CHR ''_'' then digitpart cs else digitpart (d # cs)))"

definition digits_value :: "string \<Rightarrow> int" where
  "digits_value s = foldl (\<lambda>a c. 10 * a + digit_value c) 0 (filter is_digit s)"

definition split_sign :: "string \<Rightarrow> bool \<times> string" where
  "split_sign s =
     (case s of
        [] \<Rightarrow> (False, [])
      | c # cs \<Rightarrow>
          if c = CHR ''-'' then (True, cs) else if c = CHR ''+'' then (False, cs) else (False, s))"

definition parse_number :: "string \<Rightarrow> rat option" where
  "parse_number s =
     (let ip = takeWhile (\<lambda>c. c \<noteq> CHR ''.'') s;
          rest = dropWhile (\<lambda>c. c \<noteq> CHR ''.'') s
      in if rest = [] then (if digitpart ip then Some (of_int (digits_value ip)) else None)
         else let fp = tl rest
              in if (digitpart ip \<and> (fp = [] \<or> digitpart fp)) \<or> (ip = [] \<and> digitpart fp)
                 then Some (of_int (digits_value ip)
                            + of_int (digits_value fp) / 10 ^ length (filter is_digit fp))
                 else None)"

definition parse_exponent :: "string \<Rightarrow> int option" where
  "parse_exponent s =
     (case split_sign s of
        (neg, ds) \<Rightarrow>
          if digitpart ds
          then Some (if neg then - digits_value ds else digits_value ds)
          else None)"

definition is_exp_mark :: "char \<Rightarrow> bool" where
  "is_exp_mark c = (c = CHR ''e'' \<or> c = CHR ''E'')"

definition parse_floatnumber :: "string \<Rightarrow> rat option" where
  "parse_floatnumber s =
     (let m = takeWhile (\<lambda>c. \<not> is_exp_mark c) s;
          rest = dropWhile (\<lambda>c. \<not> is_exp_mark c) s
      in case parse_number m of
           None \<Rightarrow> None
         | Some v \<Rightarrow>
             if rest = [] then Some v
             else (case parse_exponent (tl rest) of
                     None \<Rightarrow> None
                   | Some e \<Rightarrow> Some (v * 10 powi e)))"

definition to_lower :: "char \<Rightarrow> char" where
  "to_lower c =
     (if (65::nat) \<le> of_char c \<and> (of_char c :: nat) \<le> 90 then char_of (of_char c + (32::nat)) else c)"

definition py_float :: "string \<Rightarrow> pyfloat option" where
  "py_float s =
     (case split_sign (rev (dropWhile float_isspace (rev (dropWhile float_isspace s)))) of
        (neg, body) \<Rightarrow>
          if map to_lower body = ''inf'' \<or> map to_lower body = ''infinity''
          then Some (if neg then NegInf else PosInf)
          else if map to_lower body = ''nan'' then Some NaN
          else map_option (\<lambda>v. round_double (if neg then - v else v)) (parse_floatnumber body))"

section \<open>The environment of a run\<close>

text \<open>
  What \<open>json.loads\<close> returns: \<open>None\<close>, a \<open>bool\<close>, an \<open>int\<close>, a \<open>float\<close>, a \<open>str\<close>,
  a \<open>list\<close> or a \<open>dict\<close> (its items, each key once).
\<close>

datatype pyval =
    PyNone
  | PyBool bool
  | PyInt int
  | PyFloat pyfloat
  | PyStr string
  | PyList "pyval list"
  | PyDict "(string \<times> pyval) list"

text \<open>The truth value Python gives an object in \<open>if not video_info\<close>.\<close>

fun truthy :: "pyval \<Rightarrow> bool" where
  "truthy PyNone = False"
| "truthy (PyBool b) = b"
| "truthy (PyInt n) = (n \<noteq> 0)"
| "truthy (PyFloat x) = (x \<noteq> Finite 0)"
| "truthy (PyStr s) = (s \<noteq> [])"
| "truthy (PyList xs) = (xs \<noteq> [])"
| "truthy (PyDict kvs) = (kvs \<noteq> [])"

fun type_name :: "pyval \<Rightarrow> string" where
  "type_name PyNone = ''NoneType''"
| "type_name (PyBool b) = ''bool''"
| "type_name (PyInt n) = ''int''"
| "type_name (PyFloat x) = ''float''"
| "type_name (PyStr s) = ''str''"
| "type_name (PyList xs) = ''list''"
| "type_name (PyDict kvs) = ''dict''"

text \<open>
  \<open>video_info.get(key, default)\<close>: the method exists on a \<open>dict\<close> only; on any other
  object the attribute lookup raises \<open>AttributeError\<close> (\<open>Inl\<close> its text).
\<close>

fun py_get :: "pyval \<Rightarrow> string \<Rightarrow> pyval \<Rightarrow> string + pyval" where
  "py_get (PyDict kvs) key dflt =
     Inr (case map_of kvs key of None \<Rightarrow> dflt | Some v \<Rightarrow> v)"
| "py_get v key dflt =
     Inl ([CHR 0x27] @ type_name v @ [CHR 0x27] @ '' object has no attribute '' @ [CHR 0x27] @ ''get'' @ [CHR 0x27])"

text \<open>
  \<open>sanitize_filename\<close> applied to an object: \<open>re.sub\<close> raises \<open>TypeError\<close> unless its
  argument is a \<open>str\<close> (the text is the one of CPython 3.11 and later).
\<close>

fun sanitize_filename_obj :: "pyval \<Rightarrow> string + string" where
  "sanitize_filename_obj (PyStr title) = Inr (sanitize_filename title)"
| "sanitize_filename_obj v =
     Inl (''expected string or bytes-like object, got '' @ [CHR 0x27] @ type_name v @ [CHR 0x27])"

text \<open>\<open>subprocess.CompletedProcess\<close>, as \<open>subprocess.run(cmd, capture_output=True, text=True)\<close> returns it.\<close>

record completed =
  returncode :: int
  stdout :: string
  stderr :: string

text \<open>
  A call of \<open>subprocess.run\<close> returns when the process has exited, raises (the text of
  the exception), or never returns because the process never exits: the program sets no
  timeout.
\<close>

datatype call = Completed completed | Raises string | Blocks

text \<open>
  The environment: the execution search path, the file system, the two engines and the
  JSON parser of the library.
  \<^item> \<open>which name\<close>: \<open>shutil.which(name)\<close> finds an executable.
  \<^item> \<open>makedirs p\<close>: \<open>None\<close> when \<open>os.makedirs(p)\<close> succeeds, the text of its \<open>OSError\<close> otherwise.
  \<^item> \<open>subprocess_run cmd\<close>: the outcome of \<open>subprocess.run(cmd, ...)\<close>. No run issues the
    same command twice, so a function of the command describes every behaviour of the engines.
  \<^item> \<open>popen cmd\<close>: \<open>subprocess.Popen(cmd, ...)\<close> raises (\<open>Inl\<close>) or starts a process, given by
    what the reading loop then observes: for each iteration the result of
    \<open>stdout.readline()\<close> and, where the loop asks for it, of \<open>poll()\<close>. The list is
    finite; when it is used up the process neither writes nor exits any more.
  \<^item> \<open>json_loads s\<close>: \<open>json.loads(s)\<close>, \<open>Inl\<close> the text of the exception it raises.
  \<^item> \<open>abspath p\<close>: \<open>os.path.abspath(p)\<close>, which depends on the working directory.
\<close>

record env =
  which :: "string \<Rightarrow> bool"
  path_exists :: "string \<Rightarrow> bool"
  makedirs :: "string \<Rightarrow> string option"
  subprocess_run :: "string list \<Rightarrow> call"
  popen :: "string list \<Rightarrow> string + (string \<times> int option) list"
  json_loads :: "string \<Rightarrow> string + pyval"
  abspath :: "string \<Rightarrow> string"

text \<open>
  What a run leaves behind. Every invocation of an engine is recorded with what the
  program observed of it: the exit code and the captured standard error, or that no exit
  was observed (the process could not be started, or never exited).
\<close>

datatype outcome = Exit int string | NoExit

record trace =
  invocations :: "(string list \<times> outcome) list"

definition invoke :: "string list \<Rightarrow> outcome \<Rightarrow> 'a trace_scheme \<Rightarrow> 'a trace_scheme" where
  "invoke cmd out t = t\<lparr>invocations := invocations t @ [(cmd, out)]\<rparr>"

text \<open>How a block of statements ends: it falls through with a value, executes \<open>return\<close>,
  raises an exception, or never ends.\<close>

datatype 'a flow = Next 'a | Return | Raise string | Hang

section \<open>The interactive front-end: \<open>youtube_downloader_ytdlp_gui.py\<close>\<close>

text \<open>
  The signals of \<open>WorkerSignals\<close>; a run's observable behaviour is the sequence it emits.
  The payload of a signal is the Python value passed to \<open>emit\<close>.
\<close>

datatype signal = Progress int | Status string | Finished string | Error string | Log string

record world = trace +
  signals :: "signal list"

definition emit :: "signal \<Rightarrow> world \<Rightarrow> world" where
  "emit s w = w\<lparr>signals := signals w @ [s]\<rparr>"

definition init_world :: world where
  "init_world = \<lparr>invocations = [], signals = []\<rparr>"

text \<open>The attributes of a \<open>DownloadWorker\<close> that \<open>__init__\<close> sets from its arguments.\<close>

record worker =
  url :: string
  output_path :: string
  download_video :: bool
  download_audio :: bool

definition missing_tools :: "env \<Rightarrow> string list" where
  "missing_tools e =
     (if \<not> which e ''yt-dlp'' then [''yt-dlp''] else [])
     @ (if \<not> which e ''ffmpeg'' then [''ffmpeg''] else [])"

text \<open>\<open>DownloadWorker.check_dependencies\<close>.\<close>

definition check_dependencies :: "env \<Rightarrow> string list" where
  "check_dependencies e = missing_tools e"

definition info_cmd :: "string \<Rightarrow> string list" where
  "info_cmd u = [''yt-dlp'', ''--dump-json'', u]"

definition primary_format :: string where
  "primary_format = ''bestvideo[ext=mp4]+bestaudio[ext=m4a]/best[ext=mp4]/best''"

definition video_cmd :: "string \<Rightarrow> string \<Rightarrow> string list" where
  "video_cmd video_file u =
     [''yt-dlp'', ''-f'', primary_format, ''-o'', video_file, ''--progress'', u]"

definition fallback_cmd :: "string \<Rightarrow> string \<Rightarrow> string list" where
  "fallback_cmd video_file u = [''yt-dlp'', ''-f'', ''best'', ''-o'', video_file, u]"

definition ffmpeg_cmd :: "string \<Rightarrow> string \<Rightarrow> string list" where
  "ffmpeg_cmd video_file audio_file =
     [''ffmpeg'', ''-i'', video_file, ''-vn'', ''-acodec'', ''libmp3lame'', ''-q:a'', ''2'',
      audio_file, ''-y'']"

definition audio_cmd :: "string \<Rightarrow> string \<Rightarrow> string list" where
  "audio_cmd audio_file u =
     [''yt-dlp'', ''-x'', ''--audio-format'', ''mp3'', ''--audio-quality'', ''0'', ''-o'',
      audio_file, u]"

text \<open>\<open>DownloadWorker.get_video_info\<close>: it catches every exception and then returns \<open>None\<close>.\<close>

definition get_video_info :: "env \<Rightarrow> worker \<Rightarrow> world \<Rightarrow> pyval flow \<times> world" where
  "get_video_info e self w0 =
     (let w1 = emit (Progress 10) (emit (Status ''Getting video information...'') w0);
          cmd = info_cmd (url self)
      in case subprocess_run e cmd of
           Blocks \<Rightarrow> (Hang, invoke cmd NoExit w1)
         | Raises err \<Rightarrow>
             (Next PyNone,
              emit (Error (''Error while getting video info: '' @ err)) (invoke cmd NoExit w1))
         | Completed result \<Rightarrow>
             let w2 = invoke cmd (Exit (returncode result) (stderr result)) w1
             in if returncode result \<noteq> 0
                then let error_msg =
                           (if stderr result \<noteq> [] then stderr result
                            else ''Failed to get video information'')
                     in (Next PyNone, emit (Error (''Error getting video info: '' @ error_msg)) w2)
                else (case json_loads e (stdout result) of
                        Inl err \<Rightarrow>
                          (Next PyNone, emit (Error (''Error while getting video info: '' @ err)) w2)
                      | Inr video_info \<Rightarrow> (Next video_info, emit (Progress 20) w2)))"

text \<open>
  The body of the \<open>try\<close> inside the reading loop: the number before the first percent
  sign is read as a float, rescaled by \<open>30 + progress * 0.4\<close> and truncated. \<open>None\<close> when
  \<open>float\<close> or \<open>int\<close> raises, which the bare \<open>except\<close> swallows.
\<close>

definition line_percent :: "string \<Rightarrow> pyfloat option" where
  "line_percent line = py_float (split_last CHR '' '' (strip (split_first CHR ''%'' line)))"

definition scaled_progress :: "pyfloat \<Rightarrow> pyfloat" where
  "scaled_progress progress = float_add (Finite 30) (float_mul progress (round_double (4 / 10)))"

definition line_progress :: "string \<Rightarrow> int option" where
  "line_progress line =
     (case line_percent line of
        None \<Rightarrow> None
      | Some progress \<Rightarrow> py_int (scaled_progress progress))"

text \<open>What the loop does with one non-empty line.\<close>

definition on_line :: "string \<Rightarrow> world \<Rightarrow> world" where
  "on_line line w =
     (let w1 = emit (Log (strip line)) w
      in if CHR ''%'' \<in> set line
         then (case line_progress line of
                 None \<Rightarrow> w1
               | Some n \<Rightarrow> emit (Progress n) w1)
         else w1)"

text \<open>
  The \<open>while True\<close> loop over the output of the primary video fetch. It ends when
  \<open>readline\<close> returns the empty string and \<open>poll()\<close> an exit code; when the process
  stops writing and never exits, the loop never ends.
\<close>

fun read_loop :: "(string \<times> int option) list \<Rightarrow> world \<Rightarrow> int flow \<times> world" where
  "read_loop [] w = (Hang, w)"
| "read_loop ((line, poll) # reads) w =
     (if line = [] \<and> poll \<noteq> None then (Next (the poll), w)
      else if line \<noteq> [] then read_loop reads (on_line line w)
      else read_loop reads w)"

text \<open>The exit code the loop ends with, if it ends.\<close>

fun exit_code :: "(string \<times> int option) list \<Rightarrow> int option" where
  "exit_code [] = None"
| "exit_code ((line, poll) # reads) =
     (if line = [] \<and> poll \<noteq> None then poll else exit_code reads)"

text \<open>
  Lines 110-160 of \<open>run\<close>: the video download with its one fallback. The primary fetch
  is started with its standard error merged into its output, so its recorded outcome has
  no error text of its own.
\<close>

definition fetch_video :: "env \<Rightarrow> worker \<Rightarrow> string \<Rightarrow> world \<Rightarrow> unit flow \<times> world" where
  "fetch_video e self video_file w0 =
     (let w1 = emit (Log (nl # ''Downloading video...'')) (emit (Status ''Downloading MP4 (video)...'') w0);
          cmd = video_cmd video_file (url self);
          w2 = emit (Progress 30) w1
      in case popen e cmd of
           Inl err \<Rightarrow> (Raise err, invoke cmd NoExit w2)
         | Inr reads \<Rightarrow>
             (case read_loop reads
                     (invoke cmd (case exit_code reads of None \<Rightarrow> NoExit | Some rc \<Rightarrow> Exit rc []) w2) of
                (Next rc, w3) \<Rightarrow>
                  if rc \<noteq> 0
                  then let w4 = emit (Log (nl # ''Trying alternative video format...''))
                                  (emit (Status ''Trying alternative video format...'') w3);
                           cmd2 = fallback_cmd video_file (url self)
                       in (case subprocess_run e cmd2 of
                             Blocks \<Rightarrow> (Hang, invoke cmd2 NoExit w4)
                           | Raises err \<Rightarrow> (Raise err, invoke cmd2 NoExit w4)
                           | Completed process \<Rightarrow>
                               let w5 = invoke cmd2 (Exit (returncode process) (stderr process)) w4
                               in if returncode process \<noteq> 0
                                  then (Return, emit (Error (''Error downloading video: '' @ stderr process)) w5)
                                  else (Next (), emit (Log ''MP4 download complete!'') w5))
                  else (Next (), emit (Log ''MP4 download complete!'') w3)
              | (Return, w3) \<Rightarrow> (Return, w3)
              | (Raise err, w3) \<Rightarrow> (Raise err, w3)
              | (Hang, w3) \<Rightarrow> (Hang, w3)))"

text \<open>Lines 163-200 of \<open>run\<close>: the audio, extracted from the video file or fetched directly.\<close>

definition fetch_audio :: "env \<Rightarrow> worker \<Rightarrow> string \<Rightarrow> string \<Rightarrow> world \<Rightarrow> unit flow \<times> world" where
  "fetch_audio e self video_file audio_file w0 =
     (let w1 = emit (Progress 70)
                 (emit (Log (nl # ''Extracting MP3 audio...''))
                    (emit (Status ''Extracting MP3 (audio)...'') w0));
          cmd = (if download_video self then ffmpeg_cmd video_file audio_file
                 else audio_cmd audio_file (url self));
          what = (if download_video self then ''Error extracting audio: ''
                  else ''Error downloading audio: '')
      in case subprocess_run e cmd of
           Blocks \<Rightarrow> (Hang, invoke cmd NoExit w1)
         | Raises err \<Rightarrow> (Raise err, invoke cmd NoExit w1)
         | Completed process \<Rightarrow>
             let w2 = invoke cmd (Exit (returncode process) (stderr process)) w1
             in if returncode process \<noteq> 0
                then (Return, emit (Error (what @ stderr process)) w2)
                else (Next (), emit (Log ''MP3 extraction complete!'') w2))"

text \<open>
  Lines 79-107 of \<open>run\<close>: the dependency check, the output directory, the metadata and
  the two file paths (the value with which the block falls through).
\<close>

definition prepare :: "env \<Rightarrow> worker \<Rightarrow> world \<Rightarrow> (string \<times> string) flow \<times> world" where
  "prepare e self w0 =
     (let missing_deps = check_dependencies e
      in if missing_deps \<noteq> []
         then (Return,
               emit (Error (''Missing required dependencies: '' @ str_join '', '' missing_deps
                            @ [nl, nl] @ ''To install them on macOS using Homebrew:'' @ [nl]
                            @ ''brew install '' @ str_join '' '' missing_deps)) w0)
         else (case (if \<not> path_exists e (output_path self) then makedirs e (output_path self)
                     else None) of
                 Some err \<Rightarrow> (Raise err, w0)
               | None \<Rightarrow>
                   (case get_video_info e self w0 of
                      (Next video_info, w1) \<Rightarrow>
                        if \<not> truthy video_info then (Return, w1)
                        else (case py_get video_info ''title'' (PyStr ''video'') of
                                Inl err \<Rightarrow> (Raise err, w1)
                              | Inr video_title \<Rightarrow>
                                  (case sanitize_filename_obj video_title of
                                     Inl err \<Rightarrow> (Raise err, w1)
                                   | Inr sanitized_title \<Rightarrow>
                                       (Next (video_file_of (output_path self) sanitized_title,
                                              audio_file_of (output_path self) sanitized_title),
                                        emit (Status (''Downloading: ''
                                                @ (case video_title of PyStr t \<Rightarrow> t | _ \<Rightarrow> []))) w1)))
                    | (Return, w1) \<Rightarrow> (Return, w1)
                    | (Raise err, w1) \<Rightarrow> (Raise err, w1)
                    | (Hang, w1) \<Rightarrow> (Hang, w1))))"

text \<open>The body of the \<open>try\<close> of \<open>DownloadWorker.run\<close>.\<close>

definition run_body :: "env \<Rightarrow> worker \<Rightarrow> world \<Rightarrow> unit flow \<times> world" where
  "run_body e self w0 =
     (case prepare e self w0 of
        (Next (video_file, audio_file), w2) \<Rightarrow>
          (case (if download_video self then fetch_video e self video_file w2
                 else (Next (), w2)) of
             (Next u, w3) \<Rightarrow>
               (case (if download_audio self then fetch_audio e self video_file audio_file w3
                      else (Next (), w3)) of
                  (Next u, w4) \<Rightarrow>
                    (Next (),
                     emit (Finished (output_path self))
                       (emit (Status ''Download complete!'') (emit (Progress 100) w4)))
                | (Return, w4) \<Rightarrow> (Return, w4)
                | (Raise err, w4) \<Rightarrow> (Raise err, w4)
                | (Hang, w4) \<Rightarrow> (Hang, w4))
           | (Return, w3) \<Rightarrow> (Return, w3)
           | (Raise err, w3) \<Rightarrow> (Raise err, w3)
           | (Hang, w3) \<Rightarrow> (Hang, w3))
      | (Return, w2) \<Rightarrow> (Return, w2)
      | (Raise err, w2) \<Rightarrow> (Raise err, w2)
      | (Hang, w2) \<Rightarrow> (Hang, w2))"

text \<open>
  \<open>DownloadWorker.run\<close> on a fresh worker: the handler of the \<open>try\<close> reports any
  exception as an error signal. The result says whether the call returns (\<open>True\<close>) or
  hangs on an engine that never exits, and what it has emitted and invoked.
\<close>

definition run :: "env \<Rightarrow> worker \<Rightarrow> bool \<times> world" where
  "run e self =
     (case run_body e self init_world of
        (Raise err, w) \<Rightarrow> (True, emit (Error (''Error: '' @ err)) w)
      | (Hang, w) \<Rightarrow> (False, w)
      | (Next u, w) \<Rightarrow> (True, w)
      | (Return, w) \<Rightarrow> (True, w))"

text \<open>
  \<open>YouTubeDownloaderApp.start_download\<close>: the form is validated on the caller's side; only
  a form that passes creates a \<open>DownloadWorker\<close> and starts it. \<open>Inl\<close> is the text of the
  error dialog, \<open>Inr\<close> what the started worker's \<open>run\<close> does.
\<close>

record form =
  url_edit :: string
  output_path_edit :: string
  mp4_checkbox :: bool
  mp3_checkbox :: bool

definition start_download :: "env \<Rightarrow> form \<Rightarrow> string + (bool \<times> world)" where
  "start_download e ui =
     (let url = strip (url_edit ui);
          output_path = strip (output_path_edit ui);
          download_mp4 = mp4_checkbox ui;
          download_mp3 = mp3_checkbox ui
      in if url = [] then Inl ''Please enter a YouTube URL''
         else if output_path = [] then Inl ''Please select an output folder''
         else if \<not> download_mp4 \<and> \<not> download_mp3
              then Inl ''Please select at least one format to download''
         else Inr (run e \<lparr>url = url, output_path = output_path,
                           download_video = download_mp4, download_audio = download_mp3\<rparr>))"

section \<open>The command line: \<open>youtube_downloader_ytdlp.py\<close>\<close>

text \<open>The observable behaviour is what is printed, one entry for each \<open>print\<close>.\<close>

record console = trace +
  printed :: "string list"

definition py_print :: "string \<Rightarrow> console \<Rightarrow> console" where
  "py_print s c = c\<lparr>printed := printed c @ [s]\<rparr>"

definition init_console :: console where
  "init_console = \<lparr>invocations = [], printed = []\<rparr>"

text \<open>\<open>check_dependencies\<close> of the command line: it reports by printing and returns a \<open>bool\<close>.\<close>

definition cli_check_dependencies :: "env \<Rightarrow> console \<Rightarrow> bool \<times> console" where
  "cli_check_dependencies e c0 =
     (let missing_deps = missing_tools e
      in if missing_deps \<noteq> []
         then (False,
               py_print ''brew install yt-dlp ffmpeg''
                 (py_print (nl # ''To install the dependencies on macOS using Homebrew:'')
                    (py_print (''Missing required dependencies: '' @ str_join '', '' missing_deps) c0)))
         else (True, c0))"

definition cli_get_video_info :: "env \<Rightarrow> string \<Rightarrow> console \<Rightarrow> pyval flow \<times> console" where
  "cli_get_video_info e u c0 =
     (let cmd = info_cmd u
      in case subprocess_run e cmd of
           Blocks \<Rightarrow> (Hang, invoke cmd NoExit c0)
         | Raises err \<Rightarrow>
             (Next PyNone, py_print (''Error while getting video info: '' @ err) (invoke cmd NoExit c0))
         | Completed result \<Rightarrow>
             let c1 = invoke cmd (Exit (returncode result) (stderr result)) c0
             in if returncode result \<noteq> 0
                then (Next PyNone, py_print (''Error getting video info: '' @ stderr result) c1)
                else (case json_loads e (stdout result) of
                        Inl err \<Rightarrow> (Next PyNone, py_print (''Error while getting video info: '' @ err) c1)
                      | Inr video_info \<Rightarrow> (Next video_info, c1)))"

definition cli_video_cmd :: "string \<Rightarrow> string \<Rightarrow> string list" where
  "cli_video_cmd video_file u = [''yt-dlp'', ''-f'', primary_format, ''-o'', video_file, u]"

text \<open>Lines 82-101 of \<open>download_video\<close>: the video download with its one fallback.\<close>

definition cli_fetch_video :: "env \<Rightarrow> string \<Rightarrow> string \<Rightarrow> console \<Rightarrow> bool flow \<times> console" where
  "cli_fetch_video e u video_file c0 =
     (let c1 = py_print (nl # ''Downloading MP4 (video)...'') c0;
          cmd = cli_video_cmd video_file u
      in case subprocess_run e cmd of
           Blocks \<Rightarrow> (Hang, invoke cmd NoExit c1)
         | Raises err \<Rightarrow> (Raise err, invoke cmd NoExit c1)
         | Completed video_result \<Rightarrow>
             let c2 = invoke cmd (Exit (returncode video_result) (stderr video_result)) c1
             in if returncode video_result \<noteq> 0
                then let c3 = py_print (''Error downloading video: '' @ stderr video_result) c2;
                         cmd2 = fallback_cmd video_file u
                     in (case subprocess_run e cmd2 of
                           Blocks \<Rightarrow> (Hang, invoke cmd2 NoExit c3)
                         | Raises err \<Rightarrow> (Raise err, invoke cmd2 NoExit c3)
                         | Completed second \<Rightarrow>
                             let c4 = invoke cmd2 (Exit (returncode second) (stderr second)) c3
                             in if returncode second \<noteq> 0
                                then (Next False,
                                      py_print (''Error downloading video (second attempt): ''
                                                @ stderr second) c4)
                                else (Next True, py_print (''MP4 download complete: '' @ video_file) c4))
                else (Next True, py_print (''MP4 download complete: '' @ video_file) c2))"

text \<open>Lines 103-123 of \<open>download_video\<close>: the audio extraction and the final report.\<close>

definition cli_extract_audio :: "env \<Rightarrow> string \<Rightarrow> string \<Rightarrow> string \<Rightarrow> console \<Rightarrow> bool flow \<times> console" where
  "cli_extract_audio e out_path video_file audio_file c0 =
     (let c1 = py_print (nl # ''Extracting MP3 (audio)...'') c0;
          cmd = ffmpeg_cmd video_file audio_file
      in case subprocess_run e cmd of
           Blocks \<Rightarrow> (Hang, invoke cmd NoExit c1)
         | Raises err \<Rightarrow> (Raise err, invoke cmd NoExit c1)
         | Completed audio_result \<Rightarrow>
             let c2 = invoke cmd (Exit (returncode audio_result) (stderr audio_result)) c1
             in if returncode audio_result \<noteq> 0
                then (Next False, py_print (''Error extracting audio: '' @ stderr audio_result) c2)
                else (Next True,
                      py_print (nl # ''Files saved to: '' @ abspath e out_path)
                        (py_print (''MP3 extraction complete: '' @ audio_file) c2)))"

text \<open>
  Lines 60-80 of \<open>download_video\<close>: the output directory, the metadata and the two file
  paths; \<open>Next (Inl b)\<close> is \<open>return b\<close>, \<open>Next (Inr paths)\<close> falls through.
\<close>

definition cli_prepare ::
  "env \<Rightarrow> string \<Rightarrow> string \<Rightarrow> console \<Rightarrow> (bool + string \<times> string) flow \<times> console" where
  "cli_prepare e u out_path c0 =
     (case (if \<not> path_exists e out_path then makedirs e out_path else None) of
        Some err \<Rightarrow> (Raise err, c0)
      | None \<Rightarrow>
          (case cli_get_video_info e u (py_print ''Getting video information...'' c0) of
             (Next video_info, c1) \<Rightarrow>
               if \<not> truthy video_info
               then (Next (Inl False), py_print ''Failed to get video information'' c1)
               else (case py_get video_info ''title'' (PyStr ''video'') of
                       Inl err \<Rightarrow> (Raise err, c1)
                     | Inr video_title \<Rightarrow>
                         (case sanitize_filename_obj video_title of
                            Inl err \<Rightarrow> (Raise err, c1)
                          | Inr sanitized_title \<Rightarrow>
                              (Next (Inr (video_file_of out_path sanitized_title,
                                          audio_file_of out_path sanitized_title)),
                               py_print (nl # ''Downloading: ''
                                         @ (case video_title of PyStr t \<Rightarrow> t | _ \<Rightarrow> [])) c1)))
           | (Return, c1) \<Rightarrow> (Return, c1)
           | (Raise err, c1) \<Rightarrow> (Raise err, c1)
           | (Hang, c1) \<Rightarrow> (Hang, c1)))"

text \<open>The body of the \<open>try\<close> of \<open>download_video\<close>; \<open>Next b\<close> is \<open>return b\<close>.\<close>

definition cli_download_body :: "env \<Rightarrow> string \<Rightarrow> string \<Rightarrow> console \<Rightarrow> bool flow \<times> console" where
  "cli_download_body e u out_path c0 =
     (case cli_prepare e u out_path c0 of
        (Next (Inl b), c2) \<Rightarrow> (Next b, c2)
      | (Next (Inr (video_file, audio_file)), c2) \<Rightarrow>
          (case cli_fetch_video e u video_file c2 of
             (Next True, c3) \<Rightarrow> cli_extract_audio e out_path video_file audio_file c3
           | (Next False, c3) \<Rightarrow> (Next False, c3)
           | (Return, c3) \<Rightarrow> (Return, c3)
           | (Raise err, c3) \<Rightarrow> (Raise err, c3)
           | (Hang, c3) \<Rightarrow> (Hang, c3))
      | (Return, c2) \<Rightarrow> (Return, c2)
      | (Raise err, c2) \<Rightarrow> (Raise err, c2)
      | (Hang, c2) \<Rightarrow> (Hang, c2))"

text \<open>
  \<open>download_video(url, output_path)\<close>: \<open>Some b\<close> when it returns \<open>b\<close>, \<open>None\<close> when it hangs
  on an engine that never exits.
\<close>

definition cli_download_video :: "env \<Rightarrow> string \<Rightarrow> string \<Rightarrow> bool option \<times> console" where
  "cli_download_video e u out_path =
     (case cli_check_dependencies e init_console of
        (False, c1) \<Rightarrow> (Some False, c1)
      | (True, c1) \<Rightarrow>
          (case cli_download_body e u out_path c1 of
             (Next b, c2) \<Rightarrow> (Some b, c2)
           | (Return, c2) \<Rightarrow> (Some False, c2)
           | (Raise err, c2) \<Rightarrow> (Some False, py_print (''Error: '' @ err) c2)
           | (Hang, c2) \<Rightarrow> (None, c2)))"

section \<open>Reading a trace\<close>

text \<open>The kinds of invocation, told apart by the first arguments of the command.\<close>

definition is_info_cmd :: "string list \<Rightarrow> bool" where
  "is_info_cmd cmd = (take 2 cmd = [''yt-dlp'', ''--dump-json''])"

definition is_primary_cmd :: "string list \<Rightarrow> bool" where
  "is_primary_cmd cmd = (take 3 cmd = [''yt-dlp'', ''-f'', primary_format])"

definition is_fallback_cmd :: "string list \<Rightarrow> bool" where
  "is_fallback_cmd cmd = (take 3 cmd = [''yt-dlp'', ''-f'', ''best''])"

definition is_audio_cmd :: "string list \<Rightarrow> bool" where
  "is_audio_cmd cmd = (take 1 cmd = [''ffmpeg''] \<or> take 2 cmd = [''yt-dlp'', ''-x''])"

primrec progress_values :: "signal list \<Rightarrow> int list" where
  "progress_values [] = []"
| "progress_values (s # ss) =
     (case s of Progress n \<Rightarrow> n # progress_values ss | _ \<Rightarrow> progress_values ss)"

text \<open>
  Some invocation of the kind exited with a non-zero code; the number of invocations of
  the kind.
\<close>

definition exits_nonzero :: "(string list \<Rightarrow> bool) \<Rightarrow> (string list \<times> outcome) list \<Rightarrow> bool" where
  "exits_nonzero kind tr =
     list_ex (\<lambda>x. kind (fst x) \<and> (case snd x of Exit rc err \<Rightarrow> rc \<noteq> 0 | NoExit \<Rightarrow> False)) tr"

definition count_cmds :: "(string list \<Rightarrow> bool) \<Rightarrow> (string list \<times> outcome) list \<Rightarrow> nat" where
  "count_cmds kind tr = length (filter (\<lambda>x. kind (fst x)) tr)"

text \<open>
  The progress reporting of the reading loop: the non-empty lines the loop reads before
  it ends; the finite percentage parsed from a line with a percent sign; the percentages
  of a sequence of lines, in order; the progress values one line makes the loop emit.
\<close>

fun consumed_lines :: "(string \<times> int option) list \<Rightarrow> string list" where
  "consumed_lines [] = []"
| "consumed_lines ((line, poll) # reads) =
     (if line = [] \<and> poll \<noteq> None then []
      else if line \<noteq> [] then line # consumed_lines reads
      else consumed_lines reads)"

definition line_value :: "string \<Rightarrow> rat option" where
  "line_value line =
     (if CHR ''%'' \<in> set line
      then (case line_percent line of Some (Finite p) \<Rightarrow> Some p | _ \<Rightarrow> None)
      else None)"

definition percentages :: "string list \<Rightarrow> rat list" where
  "percentages lines = List.map_filter line_value lines"

definition line_emits :: "string \<Rightarrow> int list" where
  "line_emits line = progress_values (signals (on_line line init_world))"

section \<open>Concrete environments\<close>

text \<open>
  Environments and workers on which the theorems below are evaluated. The metadata of
  the video is the JSON text of an object with the one key \<open>title\<close>; \<open>json_loads\<close> parses
  this text and rejects any other with the message of \<open>json.loads\<close> for a text that is
  no JSON value at its first character. The arguments are the tools on the search path,
  the title, the outcome of the metadata invocation, what the reading loop observes of
  the primary video fetch, and the exit codes of the fallback and of the audio step.
\<close>

definition json_text :: "string \<Rightarrow> string" where
  "json_text title = ''{'' @ [CHR 0x22] @ ''title'' @ [CHR 0x22] @ '': '' @ [CHR 0x22] @ title @ [CHR 0x22] @ ''}''"

definition demo_env :: "string list \<Rightarrow> string \<Rightarrow> completed \<Rightarrow> (string \<times> int option) list \<Rightarrow> int \<Rightarrow> int \<Rightarrow> env" where
  "demo_env tools title info reads fb au =
     \<lparr>which = (\<lambda>t. t \<in> set tools),
      path_exists = (\<lambda>p. False),
      makedirs = (\<lambda>p. None),
      subprocess_run = (\<lambda>cmd.
        if is_info_cmd cmd then Completed info
        else if is_primary_cmd cmd
          then Completed \<lparr>returncode = (case exit_code reads of None \<Rightarrow> 0 | Some rc \<Rightarrow> rc),
                          stdout = [], stderr = ''ERROR: Requested format is not available''\<rparr>
        else if is_fallback_cmd cmd
          then Completed \<lparr>returncode = fb, stdout = [], stderr = ''ERROR: Video unavailable''\<rparr>
        else Completed \<lparr>returncode = au, stdout = [], stderr = ''ffmpeg version 6.0''\<rparr>),
      popen = (\<lambda>cmd. Inr reads),
      json_loads = (\<lambda>s. if s = json_text title then Inr (PyDict [(''title'', PyStr title)])
                        else Inl ''Expecting value: line 1 column 1 (char 0)''),
      abspath = (\<lambda>p. ''/home/user/'' @ p)\<rparr>"

definition info_ok :: "string \<Rightarrow> completed" where
  "info_ok title = \<lparr>returncode = 0, stdout = json_text title, stderr = []\<rparr>"

definition demo_worker :: "bool \<Rightarrow> bool \<Rightarrow> worker" where
  "demo_worker v a = \<lparr>url = ''https://youtu.be/x'', output_path = ''downloads'', download_video = v, download_audio = a\<rparr>"

text \<open>
  An environment in which the primary video fetch and the fallback both exit with
  code 1.
\<close>

definition env_video_fails :: env where
  "env_video_fails = demo_env [''yt-dlp'', ''ffmpeg''] ''t'' (info_ok ''t'')
      [(''ERROR: Requested format is not available'' @ [nl], None), ([], None), ([], Some 1)] 1 0"

text \<open>
  Environments in which the metadata invocation exits with code 0 and writes text that is
  no JSON, and in which it exits with code 1.
\<close>

definition env_unparsable :: env where
  "env_unparsable = demo_env [''yt-dlp'', ''ffmpeg''] ''t''
      \<lparr>returncode = 0, stdout = ''<html>'', stderr = ''WARNING: unable to extract''\<rparr> [] 0 0"

definition env_unavailable :: env where
  "env_unavailable = demo_env [''yt-dlp'', ''ffmpeg''] ''t''
      \<lparr>returncode = 1, stdout = [], stderr = ''ERROR: Video unavailable''\<rparr> [] 0 0"

text \<open>
  Lines as the download engine writes them, and environments whose primary video fetch
  writes them: with increasing percentages, and with the percentages of a download in
  two streams followed by a line that mentions a percentage above 100.
\<close>

definition line_100 :: string where
  "line_100 = ''[download] 100.0% of 50.00MiB in 00:05'' @ [nl]"

definition line_5 :: string where
  "line_5 = ''[download]   5.0% of 3.20MiB at 1.00MiB/s ETA 00:03'' @ [nl]"

definition line_150 :: string where
  "line_150 = ''[debug] buffer at 150% of target'' @ [nl]"

definition line_na :: string where
  "line_na = ''[download] n/a% of unknown size'' @ [nl]"

definition line_info :: string where
  "line_info = ''[youtube] Extracting URL: https://youtu.be/x'' @ [nl]"

definition env_increasing :: env where
  "env_increasing = demo_env [''yt-dlp'', ''ffmpeg''] ''t'' (info_ok ''t'')
      [(line_info, None), (line_5, None), ([], None), (line_100, None), ([], Some 0)] 0 0"

definition env_two_streams :: env where
  "env_two_streams = demo_env [''yt-dlp'', ''ffmpeg''] ''t'' (info_ok ''t'')
      [(line_100, None), (line_5, None), (line_150, None), ([], Some 0)] 0 0"

section \<open>Filename sanitation\<close>

lemma re_sub_class_filter: "re_sub_class cls [] s = filter (\<lambda>c. c \<notin> set cls) s"
  by (induction s) simp_all

text \<open>
  C4. For every title, the sanitized name is the title with every occurrence of the
  characters \<open>\ / * ? : " < > |\<close> deleted: it contains none of them and is otherwise
  character-identical to the title (the remaining characters, in their order).
\<close>

theorem sanitize_filename_deletes:
  "sanitize_filename title = delete_chars (set invalid_chars) title
   \<and> set (sanitize_filename title) \<inter> set invalid_chars = {}
   \<and> set (sanitize_filename title) = set title - set invalid_chars"
  by (auto simp: sanitize_filename_def delete_chars_def re_sub_class_filter)

theorem sanitize_filename_deletes_witness:
  "sanitize_filename (''Test: '' @ [CHR 0x22] @ ''Video'' @ [CHR 0x22] @ ''?'') = ''Test Video''
   \<and> delete_chars (set invalid_chars) (''Test: '' @ [CHR 0x22] @ ''Video'' @ [CHR 0x22] @ ''?'') = ''Test Video''"
  using sanitize_filename_deletes [of "''Test: '' @ [CHR 0x22] @ ''Video'' @ [CHR 0x22] @ ''?''"]
  by (simp add: delete_chars_def invalid_chars_def)



section \<open>Unfolding the model\<close>

lemma invocations_emit [simp]: "invocations (emit s w) = invocations w"
  by (simp add: emit_def)

lemma signals_emit [simp]: "signals (emit s w) = signals w @ [s]"
  by (simp add: emit_def)

lemma invocations_invoke [simp]: "invocations (invoke c out t) = invocations t @ [(c, out)]"
  by (simp add: invoke_def)

lemma signals_invoke [simp]: "signals (invoke c out w) = signals w"
  by (simp add: invoke_def)

lemma printed_invoke [simp]: "printed (invoke c out t) = printed t"
  by (simp add: invoke_def)

lemma invocations_print [simp]: "invocations (py_print s c) = invocations c"
  by (simp add: py_print_def)

lemma printed_print [simp]: "printed (py_print s c) = printed c @ [s]"
  by (simp add: py_print_def)

lemmas demo_defs =
  demo_env_def demo_worker_def info_ok_def json_text_def is_info_cmd_def is_primary_cmd_def
  is_fallback_cmd_def is_audio_cmd_def primary_format_def

lemmas gui_defs =
  run_def run_body_def prepare_def get_video_info_def fetch_video_def fetch_audio_def
  check_dependencies_def missing_tools_def info_cmd_def video_cmd_def fallback_cmd_def
  ffmpeg_cmd_def audio_cmd_def init_world_def emit_def invoke_def Let_def
  sanitize_filename_def invalid_chars_def video_file_of_def audio_file_of_def os_path_join_def

lemmas cli_defs =
  cli_download_video_def cli_download_body_def cli_prepare_def cli_get_video_info_def
  cli_fetch_video_def cli_extract_audio_def cli_check_dependencies_def cli_video_cmd_def
  missing_tools_def info_cmd_def fallback_cmd_def ffmpeg_cmd_def init_console_def py_print_def
  invoke_def Let_def
  sanitize_filename_def invalid_chars_def video_file_of_def audio_file_of_def os_path_join_def


section \<open>The dependency check\<close>

text \<open>
  C3. When the dependency check reports a missing tool, the run ends with the error that
  lists the missing tools, and no engine has been invoked: neither for the metadata, nor
  for the video, nor for the audio. The same holds on the command line, where
  \<open>download_video\<close> prints the list and returns \<open>False\<close>.
\<close>

theorem missing_dependencies_halt:
  assumes "check_dependencies e \<noteq> []"
  shows "run e self =
           (True, \<lparr>invocations = [],
                   signals = [Error (''Missing required dependencies: ''
                                     @ str_join '', '' (check_dependencies e)
                                     @ [nl, nl] @ ''To install them on macOS using Homebrew:'' @ [nl]
                                     @ ''brew install '' @ str_join '' '' (check_dependencies e))]\<rparr>)
         \<and> cli_download_video e u out_path =
           (Some False, \<lparr>invocations = [],
                         printed = [''Missing required dependencies: ''
                                      @ str_join '', '' (check_dependencies e),
                                    nl # ''To install the dependencies on macOS using Homebrew:'',
                                    ''brew install yt-dlp ffmpeg'']\<rparr>)"
  using assms
  by (simp add: run_def run_body_def prepare_def init_world_def emit_def
      cli_download_video_def cli_check_dependencies_def check_dependencies_def init_console_def py_print_def Let_def)

theorem missing_dependencies_halt_witness:
  "check_dependencies (demo_env [''ffmpeg''] ''t'' (info_ok ''t'') [] 0 0) = [''yt-dlp'']
   \<and> run (demo_env [''ffmpeg''] ''t'' (info_ok ''t'') [] 0 0) (demo_worker True True) =
       (True, \<lparr>invocations = [],
               signals = [Error (''Missing required dependencies: yt-dlp'' @ [nl, nl]
                                 @ ''To install them on macOS using Homebrew:'' @ [nl]
                                 @ ''brew install yt-dlp'')]\<rparr>)
   \<and> cli_download_video (demo_env [''ffmpeg''] ''t'' (info_ok ''t'') [] 0 0) ''u'' ''downloads'' =
       (Some False, \<lparr>invocations = [],
                     printed = [''Missing required dependencies: yt-dlp'',
                                nl # ''To install the dependencies on macOS using Homebrew:'',
                                ''brew install yt-dlp ffmpeg'']\<rparr>)"
proof -
  have m: "check_dependencies (demo_env [''ffmpeg''] ''t'' (info_ok ''t'') [] 0 0) = [''yt-dlp'']"
    by (simp add: check_dependencies_def missing_tools_def demo_env_def)
  then have "check_dependencies (demo_env [''ffmpeg''] ''t'' (info_ok ''t'') [] 0 0) \<noteq> []" by simp
  from missing_dependencies_halt [OF this, of "demo_worker True True" "''u''" "''downloads''"] m
  show ?thesis by simp
qed


text \<open>
  C9, as the code has it. \<open>DownloadWorker.check_dependencies\<close> returns exactly those of
  the two tools that the search path does not resolve (each once; the empty list when both
  resolve); it is a function of the search path alone, whatever the engines would do. The
  \<open>check_dependencies\<close> of the command line computes the same list, returns only whether it
  is empty and, when it is not, prints it with an installation hint; it invokes nothing.
\<close>

theorem check_dependencies_exact:
  "set (check_dependencies e) = {t. t \<in> {''yt-dlp'', ''ffmpeg''} \<and> \<not> which e t}
   \<and> distinct (check_dependencies e)
   \<and> (check_dependencies e = []) = (which e ''yt-dlp'' \<and> which e ''ffmpeg'')
   \<and> check_dependencies (e\<lparr>subprocess_run := r, popen := p\<rparr>) = check_dependencies e
   \<and> fst (cli_check_dependencies e c) = (check_dependencies e = [])
   \<and> invocations (snd (cli_check_dependencies e c)) = invocations c
   \<and> printed (snd (cli_check_dependencies e c)) =
       printed c @ (if check_dependencies e = [] then []
                    else [''Missing required dependencies: '' @ str_join '', '' (check_dependencies e),
                          nl # ''To install the dependencies on macOS using Homebrew:'',
                          ''brew install yt-dlp ffmpeg''])"
  by (auto simp: check_dependencies_def missing_tools_def cli_check_dependencies_def Let_def)

theorem check_dependencies_exact_witness:
  "check_dependencies (demo_env [''yt-dlp''] ''t'' (info_ok ''t'') [] 0 0) = [''ffmpeg'']
   \<and> check_dependencies (demo_env [''yt-dlp'', ''ffmpeg''] ''t'' (info_ok ''t'') [] 0 0) = []
   \<and> fst (cli_check_dependencies (demo_env [''yt-dlp'', ''ffmpeg''] ''t'' (info_ok ''t'') [] 0 0) init_console)"
  using check_dependencies_exact [of "demo_env [''yt-dlp''] ''t'' (info_ok ''t'') [] 0 0"]
    check_dependencies_exact [of "demo_env [''yt-dlp'', ''ffmpeg''] ''t'' (info_ok ''t'') [] 0 0" _ _ init_console]
  by (simp add: check_dependencies_def missing_tools_def demo_env_def)

text \<open>
  The claim as stated fails on the command line: with \<open>yt-dlp\<close> missing, the check returns
  a \<open>bool\<close> and has printed three lines.
\<close>

theorem cli_check_dependencies_prints:
  "cli_check_dependencies (demo_env [''ffmpeg''] ''t'' (info_ok ''t'') [] 0 0) init_console =
     (False, \<lparr>invocations = [],
              printed = [''Missing required dependencies: yt-dlp'',
                         nl # ''To install the dependencies on macOS using Homebrew:'',
                         ''brew install yt-dlp ffmpeg'']\<rparr>)
   \<and> snd (cli_check_dependencies (demo_env [''ffmpeg''] ''t'' (info_ok ''t'') [] 0 0) init_console)
       \<noteq> init_console"
  by (simp add: cli_check_dependencies_def missing_tools_def demo_env_def init_console_def py_print_def)

section \<open>Validation of the request\<close>

text \<open>
  C1, as the code has it. A request with neither format selected is rejected by the
  front-end, in \<open>start_download\<close>, with an error dialog (for an empty URL or output folder
  the dialog names that field first): no worker is created, so nothing is probed and no
  engine is invoked.
\<close>

theorem start_download_rejects_no_format:
  assumes "\<not> mp4_checkbox ui" and "\<not> mp3_checkbox ui"
  shows "start_download e ui =
           Inl (if strip (url_edit ui) = [] then ''Please enter a YouTube URL''
                else if strip (output_path_edit ui) = [] then ''Please select an output folder''
                else ''Please select at least one format to download'')"
  using assms by (simp add: start_download_def Let_def)

theorem start_download_rejects_no_format_witness:
  "start_download (demo_env [''yt-dlp'', ''ffmpeg''] ''t'' (info_ok ''t'') [] 0 0)
     \<lparr>url_edit = '' https://youtu.be/x '', output_path_edit = ''downloads'',
      mp4_checkbox = False, mp3_checkbox = False\<rparr>
   = Inl ''Please select at least one format to download''"
  using start_download_rejects_no_format
    [of "\<lparr>url_edit = '' https://youtu.be/x '', output_path_edit = ''downloads'',
          mp4_checkbox = False, mp3_checkbox = False\<rparr>"
        "demo_env [''yt-dlp'', ''ffmpeg''] ''t'' (info_ok ''t'') [] 0 0"]
  by (simp add: strip_def str_isspace_def)

text \<open>
  The claim as stated fails for \<open>DownloadWorker.run\<close>, which has no such guard: run with
  both flags false, it checks the dependencies, invokes the download engine for the
  metadata and finishes successfully.
\<close>

theorem run_accepts_no_format:
  "run (demo_env [''yt-dlp'', ''ffmpeg''] ''t'' (info_ok ''t'') [] 0 0) (demo_worker False False) =
     (True, \<lparr>invocations = [([''yt-dlp'', ''--dump-json'', ''https://youtu.be/x''], Exit 0 [])],
             signals = [Status ''Getting video information...'', Progress 10, Progress 20,
                        Status ''Downloading: t'', Progress 100, Status ''Download complete!'',
                        Finished ''downloads'']\<rparr>)"
  by (simp add: run_def run_body_def prepare_def get_video_info_def check_dependencies_def
      missing_tools_def demo_env_def demo_worker_def info_ok_def info_cmd_def is_info_cmd_def
      init_world_def emit_def invoke_def Let_def json_text_def
      sanitize_filename_def invalid_chars_def video_file_of_def audio_file_of_def os_path_join_def)

section \<open>The video fetch and its fallback\<close>

lemma read_loop_invocations [simp]: "invocations (snd (read_loop reads w)) = invocations w"
  by (induction reads arbitrary: w) (auto simp: on_line_def Let_def split: option.splits)

lemma read_loop_fst:
  "fst (read_loop reads w) = (case exit_code reads of None \<Rightarrow> Hang | Some rc \<Rightarrow> Next rc)"
  by (induction reads arbitrary: w) auto

lemma kinds [simp]:
  "is_info_cmd (info_cmd u)" "\<not> is_primary_cmd (info_cmd u)" "\<not> is_fallback_cmd (info_cmd u)" "\<not> is_audio_cmd (info_cmd u)"
  "is_primary_cmd (video_cmd vf u)" "\<not> is_info_cmd (video_cmd vf u)" "\<not> is_fallback_cmd (video_cmd vf u)" "\<not> is_audio_cmd (video_cmd vf u)"
  "is_primary_cmd (cli_video_cmd vf u)" "\<not> is_info_cmd (cli_video_cmd vf u)" "\<not> is_fallback_cmd (cli_video_cmd vf u)" "\<not> is_audio_cmd (cli_video_cmd vf u)"
  "is_fallback_cmd (fallback_cmd vf u)" "\<not> is_info_cmd (fallback_cmd vf u)" "\<not> is_primary_cmd (fallback_cmd vf u)" "\<not> is_audio_cmd (fallback_cmd vf u)"
  "is_audio_cmd (ffmpeg_cmd vf af)" "\<not> is_info_cmd (ffmpeg_cmd vf af)" "\<not> is_primary_cmd (ffmpeg_cmd vf af)" "\<not> is_fallback_cmd (ffmpeg_cmd vf af)"
  "is_audio_cmd (audio_cmd af u)" "\<not> is_info_cmd (audio_cmd af u)" "\<not> is_primary_cmd (audio_cmd af u)" "\<not> is_fallback_cmd (audio_cmd af u)"
  by (simp_all add: is_info_cmd_def is_primary_cmd_def is_fallback_cmd_def is_audio_cmd_def
      info_cmd_def video_cmd_def cli_video_cmd_def fallback_cmd_def ffmpeg_cmd_def audio_cmd_def primary_format_def)

lemma get_video_info_invocations:
  "\<exists>out. invocations (snd (get_video_info e self w0)) = invocations w0 @ [(info_cmd (url self), out)]"
  by (auto simp: get_video_info_def Let_def split: call.splits sum.splits)

lemma prepare_invocations:
  "exits_nonzero is_primary_cmd (invocations (snd (prepare e self w0))) = exits_nonzero is_primary_cmd (invocations w0)"
  "exits_nonzero is_fallback_cmd (invocations (snd (prepare e self w0))) = exits_nonzero is_fallback_cmd (invocations w0)"
  "count_cmds is_fallback_cmd (invocations (snd (prepare e self w0))) = count_cmds is_fallback_cmd (invocations w0)"
  "count_cmds is_audio_cmd (invocations (snd (prepare e self w0))) = count_cmds is_audio_cmd (invocations w0)"
  using get_video_info_invocations [of e self w0]
  by (auto simp: prepare_def Let_def exits_nonzero_def count_cmds_def split: prod.splits flow.splits sum.splits option.splits)


lemma exits_nonzero_simps [simp]:
  "exits_nonzero k [] = False"
  "exits_nonzero k (xs @ ys) = (exits_nonzero k xs \<or> exits_nonzero k ys)"
  "exits_nonzero k [(c, out)] = (k c \<and> (case out of Exit rc err \<Rightarrow> rc \<noteq> 0 | NoExit \<Rightarrow> False))"
  "exits_nonzero k ((c, out) # xs) =
     (k c \<and> (case out of Exit rc err \<Rightarrow> rc \<noteq> 0 | NoExit \<Rightarrow> False) \<or> exits_nonzero k xs)"
  by (simp_all add: exits_nonzero_def)

lemma count_cmds_simps [simp]:
  "count_cmds k [] = 0"
  "count_cmds k (xs @ ys) = count_cmds k xs + count_cmds k ys"
  "count_cmds k ((c, out) # xs) = (if k c then 1 else 0) + count_cmds k xs"
  by (simp_all add: count_cmds_def)

lemma read_loop_cases:
  obtains w where "read_loop reads w0 = (Hang, w)" "exit_code reads = None" "invocations w = invocations w0"
  | rc w where "read_loop reads w0 = (Next rc, w)" "exit_code reads = Some rc" "invocations w = invocations w0"
proof (cases "exit_code reads")
  case None
  with read_loop_fst [of reads w0] read_loop_invocations [of reads w0] that(1) [of "snd (read_loop reads w0)"]
  show ?thesis by (cases "read_loop reads w0") auto
next
  case (Some rc)
  with read_loop_fst [of reads w0] read_loop_invocations [of reads w0] that(2) [of rc "snd (read_loop reads w0)"]
  show ?thesis by (cases "read_loop reads w0") auto
qed

lemma fetch_video_trace:
  assumes "fetch_video e self vf w0 = (fl, w)"
  shows "(\<exists>out. invocations w = invocations w0 @ [(video_cmd vf (url self), out)]
            \<and> (out = NoExit \<and> fl \<noteq> Next () \<and> fl \<noteq> Return \<or> (\<exists>err. out = Exit 0 err) \<and> fl = Next ()))
       \<or> (\<exists>rc out2. rc \<noteq> 0
            \<and> invocations w = invocations w0 @ [(video_cmd vf (url self), Exit rc []),
                                                  (fallback_cmd vf (url self), out2)]
            \<and> (out2 = NoExit \<and> fl \<noteq> Next () \<and> fl \<noteq> Return
                \<or> (\<exists>err. out2 = Exit 0 err) \<and> fl = Next ()
                \<or> (\<exists>rc2 err2. out2 = Exit rc2 err2 \<and> rc2 \<noteq> 0 \<and> fl = Return
                      \<and> signals w \<noteq> [] \<and> last (signals w) = Error (''Error downloading video: '' @ err2))))"
proof (cases "popen e (video_cmd vf (url self))")
  case (Inl err)
  with assms show ?thesis by (auto simp: fetch_video_def Let_def)
next
  case (Inr reads)
  let ?w2 = "invoke (video_cmd vf (url self))
               (case exit_code reads of None \<Rightarrow> NoExit | Some rc \<Rightarrow> Exit rc [])
               (emit (Progress 30) (emit (Log (nl # ''Downloading video...''))
                  (emit (Status ''Downloading MP4 (video)...'') w0)))"
  show ?thesis
  proof (rule read_loop_cases [of reads ?w2])
    fix w3 assume "read_loop reads ?w2 = (Hang, w3)" "exit_code reads = None" "invocations w3 = invocations ?w2"
    with assms Inr show ?thesis by (auto simp: fetch_video_def Let_def)
  next
    fix rc w3 assume "read_loop reads ?w2 = (Next rc, w3)" "exit_code reads = Some rc" "invocations w3 = invocations ?w2"
    with assms Inr show ?thesis
      by (cases "subprocess_run e (fallback_cmd vf (url self))")
         (auto simp: fetch_video_def Let_def split: if_splits)
  qed
qed

lemma fetch_audio_trace:
  assumes "fetch_audio e self vf af w0 = (fl, w)"
  shows "\<exists>c out. invocations w = invocations w0 @ [(c, out)] \<and> is_audio_cmd c
           \<and> \<not> is_primary_cmd c \<and> \<not> is_fallback_cmd c"
  using assms
  by (cases "subprocess_run e (if download_video self then ffmpeg_cmd vf af else audio_cmd af (url self))")
     (auto simp: fetch_audio_def Let_def split: if_splits)


lemma prepare_trace:
  assumes "prepare e self w0 = (fl, w)"
  shows "exits_nonzero is_primary_cmd (invocations w) = exits_nonzero is_primary_cmd (invocations w0)
       \<and> exits_nonzero is_fallback_cmd (invocations w) = exits_nonzero is_fallback_cmd (invocations w0)
       \<and> count_cmds is_fallback_cmd (invocations w) = count_cmds is_fallback_cmd (invocations w0)
       \<and> count_cmds is_audio_cmd (invocations w) = count_cmds is_audio_cmd (invocations w0)"
  using prepare_invocations [of e self w0] assms by simp

lemma run_video_failure:
  assumes run: "run e self = (returned, w)"
    and primary: "exits_nonzero is_primary_cmd (invocations w)"
  shows "download_video self
       \<and> count_cmds is_fallback_cmd (invocations w) = 1
       \<and> (exits_nonzero is_fallback_cmd (invocations w) \<longrightarrow>
            returned \<and> count_cmds is_audio_cmd (invocations w) = 0
            \<and> (\<exists>cmd2 rc2 err2. last (invocations w) = (cmd2, Exit rc2 err2) \<and> is_fallback_cmd cmd2
                  \<and> rc2 \<noteq> 0 \<and> last (signals w) = Error (''Error downloading video: '' @ err2)))"
proof -
  obtain fl0 w2 where p: "prepare e self init_world = (fl0, w2)" by (cases "prepare e self init_world")
  from prepare_trace [OF p]
  have pre: "\<not> exits_nonzero is_primary_cmd (invocations w2)" "\<not> exits_nonzero is_fallback_cmd (invocations w2)"
    "count_cmds is_fallback_cmd (invocations w2) = 0" "count_cmds is_audio_cmd (invocations w2) = 0"
    by (simp_all add: init_world_def)
  show ?thesis
  proof (cases fl0)
    case (Next paths)
    obtain vf af where paths: "paths = (vf, af)" by (cases paths)
    show ?thesis
    proof (cases "download_video self")
      case False
      show ?thesis
      proof (cases "download_audio self")
        case True
        obtain fl2 w4 where a: "fetch_audio e self vf af w2 = (fl2, w4)" by (cases "fetch_audio e self vf af w2")
        from fetch_audio_trace [OF a] run primary p Next paths False True a pre
        show ?thesis by (cases fl2) (auto simp: run_def run_body_def)
      next
        case F: False
        from run primary p Next paths False F pre show ?thesis by (auto simp: run_def run_body_def)
      qed
    next
      case True
      obtain fl1 w3 where v: "fetch_video e self vf w2 = (fl1, w3)" by (cases "fetch_video e self vf w2")
      show ?thesis
      proof (cases fl1)
        case N: (Next u)
        show ?thesis
        proof (cases "download_audio self")
          case A: True
          obtain fl2 w4 where a: "fetch_audio e self vf af w3 = (fl2, w4)" by (cases "fetch_audio e self vf af w3")
          from fetch_video_trace [OF v] fetch_audio_trace [OF a] run primary p Next paths True N A a v pre
          show ?thesis by (cases fl2) (auto simp: run_def run_body_def)
        next
          case A: False
          from fetch_video_trace [OF v] run primary p Next paths True N A v pre
          show ?thesis by (auto simp: run_def run_body_def)
        qed
      next
        case Return
        from fetch_video_trace [OF v] run primary p Next paths True Return v pre
        show ?thesis by (auto simp: run_def run_body_def)
      next
        case (Raise err)
        from fetch_video_trace [OF v] run primary p Next paths True Raise v pre
        show ?thesis by (auto simp: run_def run_body_def)
      next
        case Hang
        from fetch_video_trace [OF v] run primary p Next paths True Hang v pre
        show ?thesis by (auto simp: run_def run_body_def)
      qed
    qed
  next
    case Return
    with run primary p pre show ?thesis by (auto simp: run_def run_body_def)
  next
    case (Raise err)
    with run primary p pre show ?thesis by (auto simp: run_def run_body_def)
  next
    case Hang
    with run primary p pre show ?thesis by (auto simp: run_def run_body_def)
  qed
qed


lemma cli_get_video_info_invocations:
  "\<exists>out. invocations (snd (cli_get_video_info e u c0)) = invocations c0 @ [(info_cmd u, out)]"
  by (auto simp: cli_get_video_info_def Let_def split: call.splits sum.splits)

lemma cli_prepare_trace:
  assumes "cli_prepare e u out_path c0 = (fl, c)"
  shows "exits_nonzero is_primary_cmd (invocations c) = exits_nonzero is_primary_cmd (invocations c0)
       \<and> exits_nonzero is_fallback_cmd (invocations c) = exits_nonzero is_fallback_cmd (invocations c0)
       \<and> count_cmds is_fallback_cmd (invocations c) = count_cmds is_fallback_cmd (invocations c0)
       \<and> count_cmds is_audio_cmd (invocations c) = count_cmds is_audio_cmd (invocations c0)"
  using cli_get_video_info_invocations [of e u "py_print ''Getting video information...'' c0"] assms
  by (auto simp: cli_prepare_def Let_def split: prod.splits flow.splits sum.splits option.splits if_splits)

lemma cli_fetch_video_trace:
  assumes "cli_fetch_video e u vf c0 = (fl, c)"
  shows "(\<exists>out. invocations c = invocations c0 @ [(cli_video_cmd vf u, out)]
            \<and> (out = NoExit \<and> (\<forall>b. fl \<noteq> Next b) \<or> (\<exists>err. out = Exit 0 err) \<and> fl = Next True))
       \<or> (\<exists>rc err out2. rc \<noteq> 0
            \<and> invocations c = invocations c0 @ [(cli_video_cmd vf u, Exit rc err), (fallback_cmd vf u, out2)]
            \<and> (out2 = NoExit \<and> (\<forall>b. fl \<noteq> Next b)
                \<or> (\<exists>err. out2 = Exit 0 err) \<and> fl = Next True
                \<or> (\<exists>rc2 err2. out2 = Exit rc2 err2 \<and> rc2 \<noteq> 0 \<and> fl = Next False
                      \<and> printed c \<noteq> []
                      \<and> last (printed c) = ''Error downloading video (second attempt): '' @ err2)))"
proof (cases "subprocess_run e (cli_video_cmd vf u)")
  case (Completed r)
  with assms show ?thesis
    by (cases "subprocess_run e (fallback_cmd vf u)")
       (auto simp: cli_fetch_video_def Let_def split: if_splits)
next
  case (Raises err)
  with assms show ?thesis by (auto simp: cli_fetch_video_def Let_def)
next
  case Blocks
  with assms show ?thesis by (auto simp: cli_fetch_video_def Let_def)
qed

lemma cli_extract_audio_trace:
  assumes "cli_extract_audio e out_path vf af c0 = (fl, c)"
  shows "\<exists>out. invocations c = invocations c0 @ [(ffmpeg_cmd vf af, out)]"
  using assms
  by (cases "subprocess_run e (ffmpeg_cmd vf af)")
     (auto simp: cli_extract_audio_def Let_def split: if_splits)

lemma cli_video_failure:
  assumes run: "cli_download_video e u out_path = (res, c)"
    and primary: "exits_nonzero is_primary_cmd (invocations c)"
  shows "count_cmds is_fallback_cmd (invocations c) = 1
       \<and> (exits_nonzero is_fallback_cmd (invocations c) \<longrightarrow>
            res = Some False \<and> count_cmds is_audio_cmd (invocations c) = 0
            \<and> (\<exists>cmd2 rc2 err2. last (invocations c) = (cmd2, Exit rc2 err2) \<and> is_fallback_cmd cmd2
                  \<and> rc2 \<noteq> 0
                  \<and> last (printed c) = ''Error downloading video (second attempt): '' @ err2))"
proof (cases "missing_tools e = []")
  case False
  with run primary show ?thesis
    by (auto simp: cli_download_video_def cli_check_dependencies_def Let_def init_console_def)
next
  case True
  then have chk: "cli_check_dependencies e init_console = (True, init_console)"
    by (simp add: cli_check_dependencies_def)
  obtain fl0 c2 where p: "cli_prepare e u out_path init_console = (fl0, c2)"
    by (cases "cli_prepare e u out_path init_console")
  from cli_prepare_trace [OF p]
  have pre: "\<not> exits_nonzero is_primary_cmd (invocations c2)" "\<not> exits_nonzero is_fallback_cmd (invocations c2)"
    "count_cmds is_fallback_cmd (invocations c2) = 0" "count_cmds is_audio_cmd (invocations c2) = 0"
    by (simp_all add: init_console_def)
  show ?thesis
  proof (cases fl0)
    case (Next r)
    show ?thesis
    proof (cases r)
      case (Inl b)
      with run primary p Next pre chk show ?thesis
        by (auto simp: cli_download_video_def cli_download_body_def)
    next
      case (Inr paths)
      obtain vf af where paths: "paths = (vf, af)" by (cases paths)
      obtain fl1 c3 where v: "cli_fetch_video e u vf c2 = (fl1, c3)" by (cases "cli_fetch_video e u vf c2")
      show ?thesis
      proof (cases "fl1 = Next True")
        case T: True
        obtain fl2 c4 where a: "cli_extract_audio e out_path vf af c3 = (fl2, c4)"
          by (cases "cli_extract_audio e out_path vf af c3")
        from cli_fetch_video_trace [OF v] cli_extract_audio_trace [OF a] run primary p Next Inr paths T a v pre chk
        show ?thesis
          by (cases fl2) (auto simp: cli_download_video_def cli_download_body_def)
      next
        case F: False
        from cli_fetch_video_trace [OF v] run primary p Next Inr paths F v pre chk
        show ?thesis
          by (cases fl1) (auto simp: cli_download_video_def cli_download_body_def split: bool.splits)
      qed
    qed
  next
    case Return
    with run primary p pre chk show ?thesis by (auto simp: cli_download_video_def cli_download_body_def)
  next
    case (Raise err)
    with run primary p pre chk show ?thesis by (auto simp: cli_download_video_def cli_download_body_def)
  next
    case Hang
    with run primary p pre chk show ?thesis by (auto simp: cli_download_video_def cli_download_body_def)
  qed
qed

lemma run_env_video_fails:
  "run env_video_fails (demo_worker True True) =
     (True,
      \<lparr>invocations =
         [([''yt-dlp'', ''--dump-json'', ''https://youtu.be/x''], Exit 0 []),
          ([''yt-dlp'', ''-f'', ''bestvideo[ext=mp4]+bestaudio[ext=m4a]/best[ext=mp4]/best'',
            ''-o'', ''downloads/t.mp4'', ''--progress'', ''https://youtu.be/x''], Exit 1 []),
          ([''yt-dlp'', ''-f'', ''best'', ''-o'', ''downloads/t.mp4'', ''https://youtu.be/x''],
           Exit 1 ''ERROR: Video unavailable'')],
       signals =
         [Status ''Getting video information...'', Progress 10, Progress 20,
          Status ''Downloading: t'', Status ''Downloading MP4 (video)...'',
          Log (nl # ''Downloading video...''), Progress 30,
          Log ''ERROR: Requested format is not available'',
          Status ''Trying alternative video format...'',
          Log (nl # ''Trying alternative video format...''),
          Error ''Error downloading video: ERROR: Video unavailable'']\<rparr>)"
  by (simp add: env_video_fails_def gui_defs demo_defs on_line_def strip_def str_isspace_def nl_def)

lemma cli_env_video_fails:
  "cli_download_video env_video_fails ''https://youtu.be/x'' ''downloads'' =
     (Some False,
      \<lparr>invocations =
         [([''yt-dlp'', ''--dump-json'', ''https://youtu.be/x''], Exit 0 []),
          ([''yt-dlp'', ''-f'', ''bestvideo[ext=mp4]+bestaudio[ext=m4a]/best[ext=mp4]/best'',
            ''-o'', ''downloads/t.mp4'', ''https://youtu.be/x''],
           Exit 1 ''ERROR: Requested format is not available''),
          ([''yt-dlp'', ''-f'', ''best'', ''-o'', ''downloads/t.mp4'', ''https://youtu.be/x''],
           Exit 1 ''ERROR: Video unavailable'')],
       printed =
         [''Getting video information...'', nl # ''Downloading: t'',
          nl # ''Downloading MP4 (video)...'',
          ''Error downloading video: ERROR: Requested format is not available'',
          ''Error downloading video (second attempt): ERROR: Video unavailable'']\<rparr>)"
  by (simp add: env_video_fails_def cli_defs demo_defs nl_def)

text \<open>
  C2. In every run that fetches the video, when the primary video fetch exits non-zero,
  exactly one fallback invocation (quality selection \<open>best\<close>) is in the trace; when that
  fallback also exits non-zero, the run returns, the fallback is the last invocation and
  the last signal is the video error with the standard error of the fallback. On the
  command line the same holds, with the error printed and \<open>False\<close> returned.
\<close>

theorem video_fallback_once:
  assumes "run e self = (returned, w)"
    and "cli_download_video e u out_path = (res, c)"
  shows "(download_video self \<and> exits_nonzero is_primary_cmd (invocations w) \<longrightarrow>
            count_cmds is_fallback_cmd (invocations w) = 1
            \<and> (exits_nonzero is_fallback_cmd (invocations w) \<longrightarrow>
                 returned
                 \<and> (\<exists>cmd2 rc2 err2. last (invocations w) = (cmd2, Exit rc2 err2)
                       \<and> is_fallback_cmd cmd2 \<and> rc2 \<noteq> 0
                       \<and> last (signals w) = Error (''Error downloading video: '' @ err2))))
       \<and> (exits_nonzero is_primary_cmd (invocations c) \<longrightarrow>
            count_cmds is_fallback_cmd (invocations c) = 1
            \<and> (exits_nonzero is_fallback_cmd (invocations c) \<longrightarrow>
                 res = Some False
                 \<and> (\<exists>cmd2 rc2 err2. last (invocations c) = (cmd2, Exit rc2 err2)
                       \<and> is_fallback_cmd cmd2 \<and> rc2 \<noteq> 0
                       \<and> last (printed c) = ''Error downloading video (second attempt): '' @ err2)))"
  using run_video_failure [OF assms(1)] cli_video_failure [OF assms(2)] by blast

theorem video_fallback_once_witness:
  "download_video (demo_worker True True)
   \<and> exits_nonzero is_primary_cmd (invocations (snd (run env_video_fails (demo_worker True True))))
   \<and> exits_nonzero is_fallback_cmd (invocations (snd (run env_video_fails (demo_worker True True))))
   \<and> count_cmds is_fallback_cmd (invocations (snd (run env_video_fails (demo_worker True True)))) = 1
   \<and> fst (run env_video_fails (demo_worker True True))
   \<and> last (signals (snd (run env_video_fails (demo_worker True True))))
       = Error ''Error downloading video: ERROR: Video unavailable''
   \<and> exits_nonzero is_primary_cmd
        (invocations (snd (cli_download_video env_video_fails ''https://youtu.be/x'' ''downloads'')))
   \<and> count_cmds is_fallback_cmd
        (invocations (snd (cli_download_video env_video_fails ''https://youtu.be/x'' ''downloads''))) = 1
   \<and> last (printed (snd (cli_download_video env_video_fails ''https://youtu.be/x'' ''downloads'')))
       = ''Error downloading video (second attempt): ERROR: Video unavailable''"
proof -
  have flags: "download_video (demo_worker True True)"
    by (simp add: demo_worker_def)
  from video_fallback_once [OF run_env_video_fails cli_env_video_fails] flags
  show ?thesis
    by (simp add: run_env_video_fails cli_env_video_fails exits_nonzero_def
        count_cmds_def is_primary_cmd_def is_fallback_cmd_def primary_format_def)
qed

text \<open>
  C8. In every run that wants the audio, when the primary and the fallback video fetch
  both exit non-zero (which they can only after the metadata was fetched), the run
  returns with the video error and no audio invocation is in the trace. The command line
  always wants the audio, and behaves the same.
\<close>

theorem no_audio_after_video_failure:
  assumes "run e self = (returned, w)"
    and "cli_download_video e u out_path = (res, c)"
  shows "(download_audio self \<and> exits_nonzero is_primary_cmd (invocations w)
            \<and> exits_nonzero is_fallback_cmd (invocations w) \<longrightarrow>
            returned \<and> count_cmds is_audio_cmd (invocations w) = 0
            \<and> (\<exists>err2. last (signals w) = Error (''Error downloading video: '' @ err2)))
       \<and> (exits_nonzero is_primary_cmd (invocations c)
            \<and> exits_nonzero is_fallback_cmd (invocations c) \<longrightarrow>
            res = Some False \<and> count_cmds is_audio_cmd (invocations c) = 0
            \<and> (\<exists>err2. last (printed c) = ''Error downloading video (second attempt): '' @ err2))"
  using run_video_failure [OF assms(1)] cli_video_failure [OF assms(2)] by blast

theorem no_audio_after_video_failure_witness:
  "download_audio (demo_worker True True)
   \<and> exits_nonzero is_primary_cmd (invocations (snd (run env_video_fails (demo_worker True True))))
   \<and> exits_nonzero is_fallback_cmd (invocations (snd (run env_video_fails (demo_worker True True))))
   \<and> fst (run env_video_fails (demo_worker True True))
   \<and> count_cmds is_audio_cmd (invocations (snd (run env_video_fails (demo_worker True True)))) = 0
   \<and> count_cmds is_info_cmd (invocations (snd (run env_video_fails (demo_worker True True)))) = 1
   \<and> last (signals (snd (run env_video_fails (demo_worker True True))))
       = Error ''Error downloading video: ERROR: Video unavailable''
   \<and> fst (cli_download_video env_video_fails ''https://youtu.be/x'' ''downloads'') = Some False
   \<and> count_cmds is_audio_cmd
        (invocations (snd (cli_download_video env_video_fails ''https://youtu.be/x'' ''downloads''))) = 0"
proof -
  have flags: "download_audio (demo_worker True True)"
    by (simp add: demo_worker_def)
  from no_audio_after_video_failure [OF run_env_video_fails cli_env_video_fails] flags
  show ?thesis
    by (simp add: run_env_video_fails cli_env_video_fails exits_nonzero_def
        count_cmds_def is_primary_cmd_def is_fallback_cmd_def is_audio_cmd_def is_info_cmd_def
        primary_format_def)
qed

section \<open>The metadata fetch\<close>

text \<open>
  C6, as the code has it. When the dependencies are present and the output directory
  exists or can be created, a metadata invocation that exits non-zero, or whose output
  \<open>json.loads\<close> rejects, ends the run with an error signal and nothing else is invoked.
  After a non-zero exit the error carries the engine's standard error (the fixed text
  \<open>Failed to get video information\<close> when that is empty); after unparsable output it
  carries the text of the parser's exception. The command line prints the corresponding
  line and returns \<open>False\<close>.
\<close>

theorem metadata_failure_halts:
  assumes deps: "check_dependencies e = []"
    and dir: "path_exists e (output_path self) \<or> makedirs e (output_path self) = None"
    and info: "subprocess_run e (info_cmd (url self)) = Completed r"
    and bad: "returncode r \<noteq> 0 \<or> json_loads e (stdout r) = Inl err"
  shows "run e self =
           (True,
            \<lparr>invocations = [(info_cmd (url self), Exit (returncode r) (stderr r))],
             signals =
               [Status ''Getting video information...'', Progress 10,
                Error (if returncode r \<noteq> 0
                       then ''Error getting video info: ''
                            @ (if stderr r \<noteq> [] then stderr r else ''Failed to get video information'')
                       else ''Error while getting video info: '' @ err)]\<rparr>)
       \<and> cli_download_video e (url self) (output_path self) =
           (Some False,
            \<lparr>invocations = [(info_cmd (url self), Exit (returncode r) (stderr r))],
             printed =
               [''Getting video information...'',
                (if returncode r \<noteq> 0 then ''Error getting video info: '' @ stderr r
                 else ''Error while getting video info: '' @ err),
                ''Failed to get video information'']\<rparr>)"
proof -
  have m: "missing_tools e = []" using deps by (simp add: check_dependencies_def)
  have gui: "fst (run e self) \<and> snd (run e self) =
            \<lparr>invocations = [(info_cmd (url self), Exit (returncode r) (stderr r))],
             signals =
               [Status ''Getting video information...'', Progress 10,
                Error (if returncode r \<noteq> 0
                       then ''Error getting video info: ''
                            @ (if stderr r \<noteq> [] then stderr r else ''Failed to get video information'')
                       else ''Error while getting video info: '' @ err)]\<rparr>"
    using assms
    by (auto simp: run_def run_body_def prepare_def get_video_info_def init_world_def emit_def
        invoke_def Let_def)
  have cli: "cli_download_video e (url self) (output_path self) =
           (Some False,
            \<lparr>invocations = [(info_cmd (url self), Exit (returncode r) (stderr r))],
             printed =
               [''Getting video information...'',
                (if returncode r \<noteq> 0 then ''Error getting video info: '' @ stderr r
                 else ''Error while getting video info: '' @ err),
                ''Failed to get video information'']\<rparr>)"
    using m dir info bad
    by (auto simp: cli_download_video_def cli_download_body_def cli_prepare_def
        cli_get_video_info_def cli_check_dependencies_def init_console_def py_print_def
        invoke_def Let_def)
  from gui cli show ?thesis by (cases "run e self") simp
qed

theorem metadata_failure_halts_witness:
  "run env_unavailable (demo_worker True True) =
     (True,
      \<lparr>invocations = [([''yt-dlp'', ''--dump-json'', ''https://youtu.be/x''],
                       Exit 1 ''ERROR: Video unavailable'')],
       signals = [Status ''Getting video information...'', Progress 10,
                  Error ''Error getting video info: ERROR: Video unavailable'']\<rparr>)
   \<and> cli_download_video env_unavailable ''https://youtu.be/x'' ''downloads'' =
     (Some False,
      \<lparr>invocations = [([''yt-dlp'', ''--dump-json'', ''https://youtu.be/x''],
                       Exit 1 ''ERROR: Video unavailable'')],
       printed = [''Getting video information...'',
                  ''Error getting video info: ERROR: Video unavailable'',
                  ''Failed to get video information'']\<rparr>)"
  using metadata_failure_halts
    [of env_unavailable "demo_worker True True"
        "\<lparr>returncode = 1, stdout = [], stderr = ''ERROR: Video unavailable''\<rparr>" "[]"]
  by (simp add: env_unavailable_def check_dependencies_def missing_tools_def demo_defs info_cmd_def)

text \<open>
  The claim as stated fails for unparsable output: the engine exits with code 0, its
  standard error holds a warning, and the error signal carries the message of the JSON
  parser instead.
\<close>

theorem unparsable_metadata_drops_stderr:
  "run env_unparsable (demo_worker True True) =
     (True,
      \<lparr>invocations = [([''yt-dlp'', ''--dump-json'', ''https://youtu.be/x''],
                       Exit 0 ''WARNING: unable to extract'')],
       signals = [Status ''Getting video information...'', Progress 10,
                  Error ''Error while getting video info: Expecting value: line 1 column 1 (char 0)'']\<rparr>)"
  by (simp add: env_unparsable_def gui_defs demo_defs)

section \<open>Rounding to a double\<close>

lemma rhe_of_int: "round_half_even (of_int n) = n"
  by (simp add: round_half_even_def)

lemma rhe_floor: "round_half_even q = \<lfloor>q\<rfloor> \<or> round_half_even q = \<lfloor>q\<rfloor> + 1"
  by (simp add: round_half_even_def Let_def)

lemma rhe_le_int:
  assumes "q \<le> of_int n" shows "round_half_even q \<le> n"
proof (cases "q = of_int n")
  case True
  then show ?thesis by (simp add: rhe_of_int)
next
  case False
  with assms have "q < of_int n" by simp
  then have "\<lfloor>q\<rfloor> < n" by (simp add: floor_less_iff)
  with rhe_floor [of q] show ?thesis by linarith
qed

lemma rhe_ge_int:
  assumes "of_int n \<le> q" shows "n \<le> round_half_even q"
proof -
  have "n \<le> \<lfloor>q\<rfloor>" using assms by (simp add: le_floor_iff)
  with rhe_floor [of q] show ?thesis by linarith
qed

lemma rhe_mono:
  assumes "a \<le> b" shows "round_half_even a \<le> round_half_even b"
proof (cases "\<lfloor>a\<rfloor> = \<lfloor>b\<rfloor>")
  case True
  have "a - of_int \<lfloor>a\<rfloor> \<le> b - of_int \<lfloor>b\<rfloor>" using assms True by simp
  then show ?thesis unfolding round_half_even_def Let_def using True by auto
next
  case False
  have "\<lfloor>a\<rfloor> \<le> \<lfloor>b\<rfloor>" using assms by (rule floor_mono)
  with False have "\<lfloor>a\<rfloor> + 1 \<le> \<lfloor>b\<rfloor>" by simp
  with rhe_floor [of a] rhe_floor [of b] show ?thesis by linarith
qed

lemma powi_nat: "0 \<le> k \<Longrightarrow> (2::rat) powi k = of_int (2 ^ nat k)"
  by (simp add: power_int_def)

lemma ilog2_ge1:
  assumes "1 \<le> x"
  shows "2 powi (ilog2 x) \<le> x \<and> x < 2 powi (ilog2 x + 1)"
proof -
  let ?n = "\<lfloor>x\<rfloor>"
  have n: "0 < ?n" using assms by simp
  from bitlen_bounds [OF n] have b: "2 ^ nat (bitlen ?n - 1) \<le> ?n" "?n < 2 ^ nat (bitlen ?n)" by auto
  have bl: "1 \<le> bitlen ?n" using n bitlen_eq_zero_iff [of ?n] bitlen_nonneg [of ?n] by linarith
  have "(2::rat) powi (bitlen ?n - 1) = of_int (2 ^ nat (bitlen ?n - 1))" using bl by (simp add: powi_nat)
  also have "\<dots> \<le> of_int ?n" using b(1) by (simp only: of_int_le_iff)
  also have "\<dots> \<le> x" by simp
  finally have lo: "2 powi (bitlen ?n - 1) \<le> x" .
  have "?n + 1 \<le> 2 ^ nat (bitlen ?n)" using b(2) by simp
  then have "(of_int (?n + 1) :: rat) \<le> of_int (2 ^ nat (bitlen ?n))" by (simp only: of_int_le_iff)
  moreover have "x < of_int (?n + 1)" by linarith
  moreover have "(2::rat) powi (bitlen ?n) = of_int (2 ^ nat (bitlen ?n))" using bl by (simp add: powi_nat)
  ultimately have hi: "x < 2 powi (bitlen ?n)" by linarith
  show ?thesis using lo hi assms by (simp add: ilog2_def)
qed

lemma ilog2_lt1:
  assumes "0 < x" "x < 1"
  shows "2 powi (ilog2 x) \<le> x \<and> x < 2 powi (ilog2 x + 1)"
proof -
  let ?y = "1 / x"
  let ?m = "\<lceil>?y\<rceil> - 1"
  let ?k = "bitlen ?m"
  have y1: "1 < ?y" using assms by simp
  then have m: "0 < ?m" by (simp add: less_ceiling_iff)
  from bitlen_bounds [OF m] have b: "2 ^ nat (?k - 1) \<le> ?m" "?m < 2 ^ nat ?k" by auto
  have bl: "1 \<le> ?k" using m bitlen_eq_zero_iff [of ?m] bitlen_nonneg [of ?m] by linarith
  have "\<lceil>?y\<rceil> \<le> 2 ^ nat ?k" using b(2) by simp
  then have "(of_int \<lceil>?y\<rceil> :: rat) \<le> of_int (2 ^ nat ?k)" by (simp only: of_int_le_iff)
  moreover have "?y \<le> of_int \<lceil>?y\<rceil>" by simp
  moreover have p1: "(2::rat) powi ?k = of_int (2 ^ nat ?k)" using bl by (simp add: powi_nat)
  ultimately have "?y \<le> 2 powi ?k" by linarith
  then have "1 \<le> 2 powi ?k * x" using assms(1) by (simp add: pos_divide_le_eq)
  then have "inverse (2 powi ?k) \<le> x" by (simp add: inverse_eq_divide pos_divide_le_eq mult.commute)
  then have lo: "2 powi (- ?k) \<le> x" by (simp add: power_int_minus)
  have "(of_int (2 ^ nat (?k - 1)) :: rat) \<le> of_int ?m" using b(1) by (simp only: of_int_le_iff)
  moreover have "of_int ?m < ?y" using less_ceiling_iff [of "?m" ?y] by simp
  moreover have "(2::rat) powi (?k - 1) = of_int (2 ^ nat (?k - 1))" using bl by (simp add: powi_nat)
  ultimately have "2 powi (?k - 1) < ?y" by linarith
  then have "2 powi (?k - 1) * x < 1" using assms(1) by (simp add: pos_less_divide_eq)
  then have "x < inverse (2 powi (?k - 1))" by (simp add: inverse_eq_divide pos_less_divide_eq mult.commute)
  then have hi: "x < 2 powi (- ?k + 1)" by (simp add: power_int_minus [symmetric])
  show ?thesis using lo hi assms by (simp add: ilog2_def)
qed

lemma ilog2_bounds:
  "0 < x \<Longrightarrow> 2 powi (ilog2 x) \<le> x \<and> x < 2 powi (ilog2 x + 1)"
  using ilog2_ge1 [of x] ilog2_lt1 [of x] by (cases "1 \<le> x") auto

lemma ilog2_mono:
  assumes "0 < x" "x \<le> y"
  shows "ilog2 x \<le> ilog2 y"
proof (rule ccontr)
  assume "\<not> ilog2 x \<le> ilog2 y"
  then have "ilog2 y + 1 \<le> ilog2 x" by simp
  then have "(2::rat) powi (ilog2 y + 1) \<le> 2 powi (ilog2 x)" by (intro power_int_increasing) auto
  moreover have "y < 2 powi (ilog2 y + 1)" using ilog2_bounds [of y] assms by simp
  moreover have "2 powi (ilog2 x) \<le> x" using ilog2_bounds [of x] assms by simp
  ultimately show False using assms by linarith
qed

lemma ulp_pos: "0 < ulp x"
  by (simp add: ulp_def)

lemma round_mag_nonneg:
  assumes "0 \<le> x" shows "0 \<le> round_mag x"
proof (cases "x = 0")
  case True
  then show ?thesis by (simp add: round_mag_def)
next
  case False
  have "(of_int 0 :: rat) \<le> x / ulp x" using assms ulp_pos [of x] by simp
  then have "0 \<le> round_half_even (x / ulp x)" by (rule rhe_ge_int)
  then show ?thesis using False ulp_pos [of x] by (simp add: round_mag_def)
qed

lemma round_mag_le_pow:
  assumes x: "0 < x" and le: "x \<le> 2 powi k" and k: "max (ilog2 x) (- 1022) - 52 \<le> k"
  shows "round_mag x \<le> 2 powi k"
proof -
  let ?u = "max (ilog2 x) (- 1022) - 52"
  have u: "ulp x = 2 powi ?u" by (simp add: ulp_def)
  have "(2::rat) powi k / 2 powi ?u = 2 powi (k - ?u)" by (simp add: power_int_diff)
  also have "\<dots> = of_int (2 ^ nat (k - ?u))" using k by (simp add: powi_nat)
  finally have q: "(2::rat) powi k / ulp x = of_int (2 ^ nat (k - ?u))" by (simp add: u)
  have "x / ulp x \<le> 2 powi k / ulp x" using le ulp_pos [of x] by (simp add: divide_right_mono)
  then have "round_half_even (x / ulp x) \<le> 2 ^ nat (k - ?u)" unfolding q by (rule rhe_le_int)
  then have "(of_int (round_half_even (x / ulp x)) :: rat) \<le> of_int (2 ^ nat (k - ?u))"
    by (simp only: of_int_le_iff)
  then have "of_int (round_half_even (x / ulp x)) * ulp x \<le> (2 powi k / ulp x) * ulp x"
    unfolding q using ulp_pos [of x] by (simp add: mult_right_mono)
  then show ?thesis using x ulp_pos [of x] by (simp add: round_mag_def)
qed

lemma round_mag_ge_pow:
  assumes x: "0 < x" and ge: "2 powi k \<le> x" and k: "max (ilog2 x) (- 1022) - 52 \<le> k"
  shows "2 powi k \<le> round_mag x"
proof -
  let ?u = "max (ilog2 x) (- 1022) - 52"
  have u: "ulp x = 2 powi ?u" by (simp add: ulp_def)
  have "(2::rat) powi k / 2 powi ?u = 2 powi (k - ?u)" by (simp add: power_int_diff)
  also have "\<dots> = of_int (2 ^ nat (k - ?u))" using k by (simp add: powi_nat)
  finally have q: "(2::rat) powi k / ulp x = of_int (2 ^ nat (k - ?u))" by (simp add: u)
  have "2 powi k / ulp x \<le> x / ulp x" using ge ulp_pos [of x] by (simp add: divide_right_mono)
  then have "2 ^ nat (k - ?u) \<le> round_half_even (x / ulp x)" unfolding q by (rule rhe_ge_int)
  then have "(of_int (2 ^ nat (k - ?u)) :: rat) \<le> of_int (round_half_even (x / ulp x))"
    by (simp only: of_int_le_iff)
  then have "(2 powi k / ulp x) * ulp x \<le> of_int (round_half_even (x / ulp x)) * ulp x"
    unfolding q using ulp_pos [of x] by (simp add: mult_right_mono)
  then show ?thesis using x ulp_pos [of x] by (simp add: round_mag_def)
qed

lemma round_mag_mono:
  assumes "0 \<le> x" and "x \<le> y"
  shows "round_mag x \<le> round_mag y"
proof (cases "x = 0")
  case True
  then show ?thesis using round_mag_nonneg [of y] assms by (simp add: round_mag_def)
next
  case False
  with assms have x: "0 < x" and y: "0 < y" by simp_all
  let ?kx = "max (ilog2 x) (- 1022)"
  let ?ky = "max (ilog2 y) (- 1022)"
  have kle: "?kx \<le> ?ky" using ilog2_mono [OF x assms(2)] by simp
  show ?thesis
  proof (cases "?kx = ?ky")
    case True
    then have u: "ulp x = ulp y" by (simp add: ulp_def)
    have "x / ulp y \<le> y / ulp y" using assms(2) ulp_pos [of y] by (simp add: divide_right_mono)
    then have "round_half_even (x / ulp y) \<le> round_half_even (y / ulp y)" by (rule rhe_mono)
    then have "(of_int (round_half_even (x / ulp y)) :: rat) \<le> of_int (round_half_even (y / ulp y))"
      by (simp only: of_int_le_iff)
    then have "of_int (round_half_even (x / ulp y)) * ulp y \<le> of_int (round_half_even (y / ulp y)) * ulp y"
      using ulp_pos [of y] by (simp add: mult_right_mono)
    then show ?thesis using x y u by (simp add: round_mag_def)
  next
    case False
    with kle have lt: "?kx < ?ky" by linarith
    then have ey: "ilog2 y = ?ky" by linarith
    have ex: "ilog2 x + 1 \<le> ?ky" using lt by linarith
    have "x < 2 powi (ilog2 x + 1)" using ilog2_bounds [OF x] by simp
    also have "\<dots> \<le> 2 powi ?ky" using ex by (intro power_int_increasing) auto
    finally have xP: "x \<le> 2 powi ?ky" by simp
    have Py: "2 powi ?ky \<le> y" using ilog2_bounds [OF y] ey by simp
    have "max (ilog2 x) (- 1022) - 52 \<le> ?ky" using lt by linarith
    then have "round_mag x \<le> 2 powi ?ky" using x xP by (intro round_mag_le_pow)
    moreover have "max (ilog2 y) (- 1022) - 52 \<le> ?ky" by linarith
    then have "2 powi ?ky \<le> round_mag y" using y Py by (intro round_mag_ge_pow)
    ultimately show ?thesis by simp
  qed
qed

lemma ilog2_unique:
  assumes "2 powi e \<le> x" and "x < 2 powi (e + 1)"
  shows "ilog2 x = e"
proof -
  have x: "0 < x" using assms(1) by (rule less_le_trans [rotated]) simp
  from ilog2_bounds [OF x] have b: "2 powi (ilog2 x) \<le> x" "x < 2 powi (ilog2 x + 1)" by simp_all
  have "\<not> e + 1 \<le> ilog2 x"
  proof
    assume "e + 1 \<le> ilog2 x"
    then have "(2::rat) powi (e + 1) \<le> 2 powi (ilog2 x)" by (intro power_int_increasing) auto
    with b(1) assms(2) show False by linarith
  qed
  moreover have "\<not> ilog2 x + 1 \<le> e"
  proof
    assume "ilog2 x + 1 \<le> e"
    then have "(2::rat) powi (ilog2 x + 1) \<le> 2 powi e" by (intro power_int_increasing) auto
    with b(2) assms(1) show False by linarith
  qed
  ultimately show ?thesis by linarith
qed

lemma round_double_eval:
  assumes lo: "2 powi e \<le> x" and hi: "x < 2 powi (e + 1)" and e: "- 1022 \<le> e" "e < 1023"
  shows "round_double x = Finite (of_int (round_half_even (x / 2 powi (e - 52))) * 2 powi (e - 52))"
proof -
  have x: "0 < x" using lo by (rule less_le_trans [rotated]) simp
  have il: "ilog2 x = e" using lo hi by (rule ilog2_unique)
  have u: "ulp x = 2 powi (e - 52)" using e by (simp add: ulp_def il)
  have rm: "round_mag x = of_int (round_half_even (x / 2 powi (e - 52))) * 2 powi (e - 52)"
    using x by (simp add: round_mag_def u)
  have "round_mag x \<le> 2 powi (e + 1)"
    using x hi e il by (intro round_mag_le_pow) auto
  also have "\<dots> < (2::rat) powi 1024" using e by (intro power_int_strict_increasing) auto
  finally have "round_mag x < 2 powi 1024" .
  then show ?thesis using x rm by (simp add: round_double_def Let_def)
qed

lemma floor_numeral_div:
  "\<lfloor>(numeral a :: rat) / numeral b\<rfloor> = numeral a div numeral b"
  using floor_divide_of_int_eq [of "numeral a" "numeral b", where ?'a = rat] by simp

lemma round_double_consts:
  "round_double (2 / 5) = Finite (3602879701896397 / 9007199254740992)"
  "round_double 30 = Finite 30"
  "round_double 70 = Finite 70"
  "round_double (100 * (3602879701896397 / 9007199254740992)) = Finite 40"
  by (subst round_double_eval [where e = "- 2"];
      simp add: power_int_minus round_half_even_def Let_def floor_numeral_div)
     (subst round_double_eval [where e = 4] round_double_eval [where e = 6]
        round_double_eval [where e = 5];
      simp add: power_int_minus round_half_even_def Let_def floor_numeral_div)+

lemma round_double_0: "round_double 0 = Finite 0"
proof -
  have "(0::rat) < 2 powi 1024" by simp
  then show ?thesis by (simp add: round_double_def round_mag_def Let_def not_le)
qed

lemma round_double_Finite:
  "round_double x = Finite a \<longleftrightarrow>
     round_mag \<bar>x\<bar> < 2 powi 1024 \<and> a = (if x < 0 then - round_mag \<bar>x\<bar> else round_mag \<bar>x\<bar>)"
  by (auto simp: round_double_def Let_def)

lemma round_double_mono:
  assumes "x \<le> y" and "round_double x = Finite a" and "round_double y = Finite b"
  shows "a \<le> b"
proof -
  from assms(2,3) have a: "a = (if x < 0 then - round_mag \<bar>x\<bar> else round_mag \<bar>x\<bar>)"
    and b: "b = (if y < 0 then - round_mag \<bar>y\<bar> else round_mag \<bar>y\<bar>)"
    by (simp_all add: round_double_Finite)
  consider "0 \<le> x" | "x < 0" "0 \<le> y" | "y < 0" using assms(1) by linarith
  then show ?thesis
  proof cases
    case 1
    then have "round_mag \<bar>x\<bar> \<le> round_mag \<bar>y\<bar>" using assms(1) by (intro round_mag_mono) auto
    with 1 assms(1) a b show ?thesis by auto
  next
    case 2
    have "0 \<le> round_mag \<bar>x\<bar>" "0 \<le> round_mag \<bar>y\<bar>" by (simp_all add: round_mag_nonneg)
    with 2 a b show ?thesis by auto
  next
    case 3
    then have "round_mag \<bar>y\<bar> \<le> round_mag \<bar>x\<bar>" using assms(1) by (intro round_mag_mono) auto
    with 3 assms(1) a b show ?thesis by auto
  qed
qed

lemma round_double_between:
  assumes "0 \<le> lo" and "lo \<le> x" and "x \<le> hi"
    and "round_double lo = Finite lo'" and "round_double hi = Finite hi'"
  shows "\<exists>z. round_double x = Finite z \<and> lo' \<le> z \<and> z \<le> hi'"
proof -
  have "round_mag \<bar>x\<bar> \<le> round_mag \<bar>hi\<bar>" using assms by (intro round_mag_mono) auto
  moreover have "round_mag \<bar>hi\<bar> < 2 powi 1024" using assms(5) by (simp add: round_double_Finite)
  ultimately have "round_mag \<bar>x\<bar> < 2 powi 1024" by simp
  then obtain z where z: "round_double x = Finite z" by (auto simp: round_double_Finite)
  from round_double_mono [OF assms(2) assms(4) z] round_double_mono [OF assms(3) z assms(5)] z
  show ?thesis by simp
qed

lemma scaled_progress_Finite:
  "scaled_progress (Finite p) =
     (case round_double (p * (3602879701896397 / 9007199254740992)) of
        Finite y \<Rightarrow> round_double (30 + y)
      | PosInf \<Rightarrow> PosInf | NegInf \<Rightarrow> NegInf | NaN \<Rightarrow> NaN)"
  by (cases "round_double (p * (3602879701896397 / 9007199254740992))")
     (simp_all add: scaled_progress_def round_double_consts)

lemma py_int_Some: "py_int x = Some n \<longleftrightarrow> (\<exists>a. x = Finite a \<and> n = (if 0 \<le> a then \<lfloor>a\<rfloor> else \<lceil>a\<rceil>))"
  by (cases x) auto

lemma scaled_in_range:
  assumes "0 \<le> p" and "p \<le> 100"
  shows "\<exists>n. py_int (scaled_progress (Finite p)) = Some n \<and> 30 \<le> n \<and> n \<le> 70"
proof -
  let ?c = "3602879701896397 / 9007199254740992 :: rat"
  have "0 \<le> p * ?c" "p * ?c \<le> 100 * ?c" using assms by simp_all
  from round_double_between [OF _ this(1) this(2) round_double_0 round_double_consts(4)]
  obtain y where y: "round_double (p * ?c) = Finite y" "0 \<le> y" "y \<le> 40" by auto
  then have "30 \<le> 30 + y" "30 + y \<le> 70" by simp_all
  from round_double_between [OF _ this(1) this(2) round_double_consts(2) round_double_consts(3)]
  obtain z where z: "round_double (30 + y) = Finite z" "30 \<le> z" "z \<le> 70" by auto
  have "30 \<le> \<lfloor>z\<rfloor>" "\<lfloor>z\<rfloor> \<le> 70" using z(2,3) by (simp_all add: le_floor_iff floor_le_iff)
  with y z show ?thesis by (simp add: scaled_progress_Finite)
qed

lemma trunc_mono:
  fixes a b :: rat
  assumes "a \<le> b"
  shows "(if 0 \<le> a then \<lfloor>a\<rfloor> else \<lceil>a\<rceil>) \<le> (if 0 \<le> b then \<lfloor>b\<rfloor> else \<lceil>b\<rceil>)"
proof -
  consider "0 \<le> a" | "a < 0" "0 \<le> b" | "b < 0" using assms by linarith
  then show ?thesis
  proof cases
    case 1
    with assms show ?thesis by (simp add: floor_mono)
  next
    case 2
    then have "\<lceil>a\<rceil> \<le> 0" "0 \<le> \<lfloor>b\<rfloor>" by (simp_all add: ceiling_le_iff)
    then have "\<lceil>a\<rceil> \<le> \<lfloor>b\<rfloor>" by linarith
    with 2 show ?thesis by simp
  next
    case 3
    with assms show ?thesis by (simp add: ceiling_mono)
  qed
qed

lemma scaled_mono:
  assumes "p \<le> q"
    and "py_int (scaled_progress (Finite p)) = Some n"
    and "py_int (scaled_progress (Finite q)) = Some m"
  shows "n \<le> m"
proof -
  let ?c = "3602879701896397 / 9007199254740992 :: rat"
  from assms(2) obtain y1 z1 where 1: "round_double (p * ?c) = Finite y1" "round_double (30 + y1) = Finite z1"
    "n = (if 0 \<le> z1 then \<lfloor>z1\<rfloor> else \<lceil>z1\<rceil>)"
    by (auto simp: scaled_progress_Finite py_int_Some split: pyfloat.splits)
  from assms(3) obtain y2 z2 where 2: "round_double (q * ?c) = Finite y2" "round_double (30 + y2) = Finite z2"
    "m = (if 0 \<le> z2 then \<lfloor>z2\<rfloor> else \<lceil>z2\<rceil>)"
    by (auto simp: scaled_progress_Finite py_int_Some split: pyfloat.splits)
  have "p * ?c \<le> q * ?c" using assms(1) by simp
  from round_double_mono [OF this 1(1) 2(1)] have "30 + y1 \<le> 30 + y2" by simp
  from round_double_mono [OF this 1(2) 2(2)] have "z1 \<le> z2" .
  from trunc_mono [OF this] 1(3) 2(3) show ?thesis by simp
qed

section \<open>Progress reporting\<close>

lemma progress_values_append [simp]:
  "progress_values (xs @ ys) = progress_values xs @ progress_values ys"
  by (induction xs) (auto split: signal.splits)

lemma progress_values_map_Progress [simp]: "progress_values (map Progress ns) = ns"
  by (induction ns) auto

lemma line_emits_eq:
  "line_emits line =
     (if CHR ''%'' \<in> set line then (case line_progress line of None \<Rightarrow> [] | Some n \<Rightarrow> [n]) else [])"
  by (simp add: line_emits_def on_line_def Let_def init_world_def split: option.splits)

lemma on_line_signals:
  "signals (on_line line w) = signals w @ Log (strip line) # map Progress (line_emits line)"
  by (simp add: line_emits_eq on_line_def Let_def split: option.splits)

lemma on_line_invocations [simp]: "invocations (on_line line w) = invocations w"
  by (simp add: on_line_def Let_def split: option.splits)

lemma scaled_progress_nonfinite:
  "py_int (scaled_progress PosInf) = None"
  "py_int (scaled_progress NegInf) = None"
  "py_int (scaled_progress NaN) = None"
  by (simp_all add: scaled_progress_def round_double_consts)

lemma line_emits_value:
  "line_emits line =
     (case line_value line of
        None \<Rightarrow> []
      | Some p \<Rightarrow> (case py_int (scaled_progress (Finite p)) of None \<Rightarrow> [] | Some n \<Rightarrow> [n]))"
  by (auto simp: line_emits_eq line_value_def line_progress_def scaled_progress_nonfinite
      split: option.splits pyfloat.splits)

lemma read_loop_progress:
  "progress_values (signals (snd (read_loop reads w))) =
     progress_values (signals w) @ concat (map line_emits (consumed_lines reads))"
  by (induction reads arbitrary: w) (auto simp: on_line_signals)

lemma emitted_map_filter:
  "concat (map line_emits lines) =
     List.map_filter (\<lambda>p. py_int (scaled_progress (Finite p))) (percentages lines)"
  by (induction lines)
     (auto simp: line_emits_value percentages_def List.map_filter_simps split: option.splits)

lemma set_map_filter:
  "set (List.map_filter f xs) = {y. \<exists>x \<in> set xs. f x = Some y}"
  by (induction xs) (auto simp: List.map_filter_simps split: option.splits)

lemma scaled_sorted:
  "sorted ps \<Longrightarrow> sorted (List.map_filter (\<lambda>p. py_int (scaled_progress (Finite p))) ps)"
proof (induction ps)
  case Nil
  then show ?case by (simp add: List.map_filter_simps)
next
  case (Cons p ps)
  then have ih: "sorted (List.map_filter (\<lambda>p. py_int (scaled_progress (Finite p))) ps)"
    and le: "\<forall>q \<in> set ps. p \<le> q" by simp_all
  show ?case
  proof (cases "py_int (scaled_progress (Finite p))")
    case None
    with ih show ?thesis by (simp add: List.map_filter_simps)
  next
    case (Some n)
    have "n \<le> m" if "m \<in> set (List.map_filter (\<lambda>p. py_int (scaled_progress (Finite p))) ps)" for m
    proof -
      from that obtain q where q: "q \<in> set ps" "py_int (scaled_progress (Finite q)) = Some m"
        by (auto simp: set_map_filter)
      from le q(1) have "p \<le> q" by simp
      from scaled_mono [OF this Some q(2)] show ?thesis .
    qed
    with ih Some show ?thesis by (simp add: List.map_filter_simps)
  qed
qed

lemma scaled_range:
  assumes "list_all (\<lambda>p. 0 \<le> p \<and> p \<le> 100) ps"
  shows "list_all (\<lambda>n. 30 \<le> n \<and> n \<le> 70) (List.map_filter (\<lambda>p. py_int (scaled_progress (Finite p))) ps)"
  using assms scaled_in_range by (fastforce simp: list_all_iff set_map_filter)

lemma on_line_progress:
  "progress_values (signals (on_line line w0)) =
     progress_values (signals w0) @
       (case line_value line of
          None \<Rightarrow> []
        | Some p \<Rightarrow> (case py_int (scaled_progress (Finite p)) of None \<Rightarrow> [] | Some n \<Rightarrow> [n]))"
  by (simp add: on_line_signals line_emits_value)

lemma read_loop_no_finished:
  "Finished p \<notin> set (signals w) \<Longrightarrow> Finished p \<notin> set (signals (snd (read_loop reads w)))"
proof (induction reads arbitrary: w)
  case Nil
  then show ?case by simp
next
  case (Cons r reads)
  obtain line poll where r: "r = (line, poll)" by (cases r)
  have "Finished p \<notin> set (signals (on_line line w))"
    using Cons.prems by (auto simp: on_line_signals)
  from Cons.IH [OF this] Cons.IH [OF Cons.prems] Cons.prems r
  show ?case by simp
qed

lemma get_video_info_progress:
  assumes "get_video_info e self w0 = (fl, w)"
  shows "Finished p \<notin> set (signals w0) \<longrightarrow> Finished p \<notin> set (signals w)"
    and "fl = Next v \<and> truthy v \<longrightarrow> progress_values (signals w) = progress_values (signals w0) @ [10, 20]"
  using assms
  by (auto simp: get_video_info_def Let_def split: call.splits sum.splits if_splits)

lemma prepare_progress:
  assumes "prepare e self w0 = (fl, w)"
  shows "Finished p \<notin> set (signals w0) \<longrightarrow> Finished p \<notin> set (signals w)"
    and "fl = Next paths \<longrightarrow> progress_values (signals w) = progress_values (signals w0) @ [10, 20]"
proof -
  obtain fl1 w1 where g: "get_video_info e self w0 = (fl1, w1)" by (cases "get_video_info e self w0")
  from get_video_info_progress(1) [OF g, where p = p] assms g
  show "Finished p \<notin> set (signals w0) \<longrightarrow> Finished p \<notin> set (signals w)"
    by (auto simp: prepare_def Let_def split: if_splits option.splits flow.splits sum.splits)
  from get_video_info_progress(2) [OF g] assms g
  show "fl = Next paths \<longrightarrow> progress_values (signals w) = progress_values (signals w0) @ [10, 20]"
    by (auto simp: prepare_def Let_def split: if_splits option.splits flow.splits sum.splits)
qed

lemma fetch_video_progress:
  assumes "fetch_video e self vf w0 = (fl, w)"
  shows "Finished p \<notin> set (signals w0) \<longrightarrow> Finished p \<notin> set (signals w)"
    and "fl = Next u \<longrightarrow>
           (\<exists>reads. popen e (video_cmd vf (url self)) = Inr reads
              \<and> progress_values (signals w) =
                  progress_values (signals w0) @ 30 # concat (map line_emits (consumed_lines reads)))"
proof -
  show "Finished p \<notin> set (signals w0) \<longrightarrow> Finished p \<notin> set (signals w)"
  proof (cases "popen e (video_cmd vf (url self))")
    case (Inl err)
    with assms show ?thesis by (auto simp: fetch_video_def Let_def)
  next
    case (Inr reads)
    let ?w2 = "invoke (video_cmd vf (url self))
                 (case exit_code reads of None \<Rightarrow> NoExit | Some rc \<Rightarrow> Exit rc [])
                 (emit (Progress 30) (emit (Log (nl # ''Downloading video...''))
                    (emit (Status ''Downloading MP4 (video)...'') w0)))"
    obtain fl1 w3 where r: "read_loop reads ?w2 = (fl1, w3)" by (cases "read_loop reads ?w2")
    from read_loop_no_finished [of p ?w2 reads] r
    have "Finished p \<notin> set (signals w0) \<longrightarrow> Finished p \<notin> set (signals w3)" by simp
    with assms Inr r show ?thesis
      by (auto simp: fetch_video_def Let_def split: flow.splits call.splits if_splits)
  qed
  show "fl = Next u \<longrightarrow>
           (\<exists>reads. popen e (video_cmd vf (url self)) = Inr reads
              \<and> progress_values (signals w) =
                  progress_values (signals w0) @ 30 # concat (map line_emits (consumed_lines reads)))"
  proof (cases "popen e (video_cmd vf (url self))")
    case (Inl err)
    with assms show ?thesis by (auto simp: fetch_video_def Let_def)
  next
    case (Inr reads)
    let ?w2 = "invoke (video_cmd vf (url self))
                 (case exit_code reads of None \<Rightarrow> NoExit | Some rc \<Rightarrow> Exit rc [])
                 (emit (Progress 30) (emit (Log (nl # ''Downloading video...''))
                    (emit (Status ''Downloading MP4 (video)...'') w0)))"
    obtain fl1 w3 where r: "read_loop reads ?w2 = (fl1, w3)" by (cases "read_loop reads ?w2")
    from read_loop_progress [of reads ?w2] r
    have "progress_values (signals w3) =
            progress_values (signals w0) @ 30 # concat (map line_emits (consumed_lines reads))"
      by simp
    with assms Inr r show ?thesis
      by (auto simp: fetch_video_def Let_def split: flow.splits call.splits if_splits)
  qed
qed

lemma fetch_audio_progress:
  assumes "fetch_audio e self vf af w0 = (fl, w)"
  shows "Finished p \<notin> set (signals w0) \<longrightarrow> Finished p \<notin> set (signals w)"
    and "progress_values (signals w) = progress_values (signals w0) @ [70]"
  using assms
  by (auto simp: fetch_audio_def Let_def split: call.splits if_splits)

lemmas eval_rd = power_int_minus round_half_even_def Let_def floor_numeral_div

lemma round_double_ints:
  "round_double 100 = Finite 100"
  "round_double 5 = Finite 5"
  "round_double 150 = Finite 150"
  "round_double 32 = Finite 32"
  "round_double 90 = Finite 90"
  by (subst round_double_eval [where e = 6] round_double_eval [where e = 2]
        round_double_eval [where e = 7] round_double_eval [where e = 5]; simp add: eval_rd)+

lemma round_double_products:
  "round_double (5 * (3602879701896397 / 9007199254740992)) = Finite 2"
  "round_double (150 * (3602879701896397 / 9007199254740992)) = Finite 60"
  by (subst round_double_eval [where e = 1] round_double_eval [where e = 5]; simp add: eval_rd)+

lemmas parse_defs =
  line_percent_def split_first_def split_last_def strip_def str_isspace_def py_float_def
  float_isspace_def split_sign_def to_lower_def parse_floatnumber_def parse_number_def
  parse_exponent_def is_exp_mark_def is_digit_def digits_value_def digit_value_def nl_def

lemma line_percents:
  "line_percent line_100 = Some (Finite 100)"
  "line_percent line_5 = Some (Finite 5)"
  "line_percent line_150 = Some (Finite 150)"
  "line_percent line_na = None"
  by (simp_all add: line_100_def line_5_def line_150_def line_na_def parse_defs round_double_ints)

lemma scaled_eval:
  assumes "round_double (p * (3602879701896397 / 9007199254740992)) = Finite y"
    and "round_double (30 + y) = Finite z"
  shows "py_int (scaled_progress (Finite p)) = Some (if 0 \<le> z then \<lfloor>z\<rfloor> else \<lceil>z\<rceil>)"
  using assms by (simp add: scaled_progress_Finite)

lemma scaled_values:
  "py_int (scaled_progress (Finite 100)) = Some 70"
  "py_int (scaled_progress (Finite 5)) = Some 32"
  "py_int (scaled_progress (Finite 150)) = Some 90"
proof -
  have a: "round_double (30 + 40) = Finite 70" "round_double (30 + 2) = Finite 32"
    "round_double (30 + 60) = Finite 90"
    by (simp_all add: round_double_consts round_double_ints)
  from scaled_eval [OF round_double_consts(4) a(1)]
  show "py_int (scaled_progress (Finite 100)) = Some 70" by simp
  from scaled_eval [OF round_double_products(1) a(2)]
  show "py_int (scaled_progress (Finite 5)) = Some 32" by simp
  from scaled_eval [OF round_double_products(2) a(3)]
  show "py_int (scaled_progress (Finite 150)) = Some 90" by simp
qed

lemma line_progresses:
  "line_progress line_100 = Some 70"
  "line_progress line_5 = Some 32"
  "line_progress line_150 = Some 90"
  "line_progress line_na = None"
  by (simp_all add: line_progress_def line_percents scaled_values)

lemma line_facts:
  "CHR ''%'' \<in> set line_100" "CHR ''%'' \<in> set line_5" "CHR ''%'' \<in> set line_150"
  "CHR ''%'' \<in> set line_na" "CHR ''%'' \<notin> set line_info"
  "line_100 \<noteq> []" "line_5 \<noteq> []" "line_150 \<noteq> []" "line_na \<noteq> []" "line_info \<noteq> []"
  "strip line_100 = ''[download] 100.0% of 50.00MiB in 00:05''"
  "strip line_5 = ''[download]   5.0% of 3.20MiB at 1.00MiB/s ETA 00:03''"
  "strip line_150 = ''[debug] buffer at 150% of target''"
  "strip line_na = ''[download] n/a% of unknown size''"
  "strip line_info = ''[youtube] Extracting URL: https://youtu.be/x''"
  by (simp_all add: line_100_def line_5_def line_150_def line_na_def line_info_def strip_def
      str_isspace_def nl_def)

lemma run_progress:
  assumes run: "run e self = (returned, w)"
    and fin: "Finished (output_path self) \<in> set (signals w)"
  shows "\<exists>ls. progress_values (signals w) =
                [10, 20] @ ls @ (if download_audio self then [70] else []) @ [100]
            \<and> (if download_video self
                then \<exists>vf reads. popen e (video_cmd vf (url self)) = Inr reads
                       \<and> ls = 30 # concat (map line_emits (consumed_lines reads))
                else ls = [])"
proof -
  let ?p = "output_path self"
  have init: "Finished ?p \<notin> set (signals init_world)" "progress_values (signals init_world) = []"
    by (simp_all add: init_world_def)
  obtain fl0 w2 where p: "prepare e self init_world = (fl0, w2)" by (cases "prepare e self init_world")
  from prepare_progress(1) [OF p, of ?p] init have n2: "Finished ?p \<notin> set (signals w2)" by simp
  show ?thesis
  proof (cases fl0)
    case (Next paths)
    obtain vf af where paths: "paths = (vf, af)" by (cases paths)
    from prepare_progress(2) [OF p, of paths] Next init
    have pr2: "progress_values (signals w2) = [10, 20]" by simp
    obtain fl1 w3 where v: "(if download_video self then fetch_video e self vf w2 else (Next (), w2)) = (fl1, w3)"
      by (cases "if download_video self then fetch_video e self vf w2 else (Next (), w2)")
    have n3: "Finished ?p \<notin> set (signals w3)"
      using v n2 fetch_video_progress(1) [of e self vf w2 fl1 w3 ?p] by (auto split: if_splits)
    have pr3: "fl1 = Next () \<longrightarrow>
                 (\<exists>ls. progress_values (signals w3) = [10, 20] @ ls
                    \<and> (if download_video self
                        then \<exists>vf reads. popen e (video_cmd vf (url self)) = Inr reads
                               \<and> ls = 30 # concat (map line_emits (consumed_lines reads))
                        else ls = []))"
      using v pr2 fetch_video_progress(2) [of e self vf w2 fl1 w3 "()"] by (auto split: if_splits)
    obtain fl2 w4 where a: "(if download_audio self then fetch_audio e self vf af w3 else (Next (), w3)) = (fl2, w4)"
      by (cases "if download_audio self then fetch_audio e self vf af w3 else (Next (), w3)")
    have n4: "Finished ?p \<notin> set (signals w4)"
      using a n3 fetch_audio_progress(1) [of e self vf af w3 fl2 w4 ?p] by (auto split: if_splits)
    have pr4: "progress_values (signals w4) =
                 progress_values (signals w3) @ (if download_audio self then [70] else [])"
      using a fetch_audio_progress(2) [of e self vf af w3 fl2 w4] by (auto split: if_splits)
    have body: "run_body e self init_world =
                  (case fl1 of
                     Next u \<Rightarrow>
                       (case fl2 of
                          Next u \<Rightarrow> (Next (), emit (Finished ?p) (emit (Status ''Download complete!'')
                                                  (emit (Progress 100) w4)))
                        | Return \<Rightarrow> (Return, w4) | Raise err \<Rightarrow> (Raise err, w4) | Hang \<Rightarrow> (Hang, w4))
                   | Return \<Rightarrow> (Return, w3) | Raise err \<Rightarrow> (Raise err, w3) | Hang \<Rightarrow> (Hang, w3))"
      unfolding run_body_def p Next paths prod.case flow.case v
      by (cases fl1) (simp_all only: flow.case prod.case a)
    show ?thesis
    proof (cases "fl1 = Next () \<and> fl2 = Next ()")
      case True
      with body run have "w = emit (Finished ?p) (emit (Status ''Download complete!'') (emit (Progress 100) w4))"
        by (auto simp: run_def)
      with pr3 pr4 True show ?thesis by auto
    next
      case False
      with body run n3 n4 have "Finished ?p \<notin> set (signals w)"
        by (auto simp: run_def split: flow.splits)
      with fin show ?thesis by simp
    qed
  next
    case Return
    with p run n2 have "Finished ?p \<notin> set (signals w)" by (auto simp: run_def run_body_def)
    with fin show ?thesis by simp
  next
    case (Raise err)
    with p run n2 have "Finished ?p \<notin> set (signals w)" by (auto simp: run_def run_body_def)
    with fin show ?thesis by simp
  next
    case Hang
    with p run n2 have "Finished ?p \<notin> set (signals w)" by (auto simp: run_def run_body_def)
    with fin show ?thesis by simp
  qed
qed

text \<open>
  C5, as the code has it. A line in which a percentage \<open>p\<close> is read makes the loop emit
  the integer part of the float \<open>30 + p * 0.4\<close> and nothing else; a line in which none
  is read emits no progress value. So the values the loop emits are those of the percentages
  read from the lines it consumes, in their order. Such a value exists and lies in
  \<open>[30, 70]\<close> whenever \<open>p\<close> lies in \<open>[0, 100]\<close>, whatever the other lines are; and the
  values do not decrease whenever the percentages do not decrease, whatever their range.
  Over a run that ends with the finished signal the reported progress is 10, 20, then 30
  and the values of the loop when the video is fetched, then 70 when the audio is
  extracted, then 100: it starts at 10 and ends at 100, and it does not decrease when the
  percentages read during the video fetch lie in \<open>[0, 100]\<close> and do not decrease.
\<close>

theorem progress_scaled_from_percentages:
  "(\<forall>line w0.
      progress_values (signals (on_line line w0)) =
        progress_values (signals w0) @
          (case line_value line of
             None \<Rightarrow> []
           | Some p \<Rightarrow> (case py_int (scaled_progress (Finite p)) of None \<Rightarrow> [] | Some n \<Rightarrow> [n])))
   \<and> (\<forall>reads w0.
        progress_values (signals (snd (read_loop reads w0))) =
          progress_values (signals w0) @
            List.map_filter (\<lambda>p. py_int (scaled_progress (Finite p))) (percentages (consumed_lines reads)))
   \<and> (\<forall>p. 0 \<le> p \<and> p \<le> 100 \<longrightarrow>
        (\<exists>n. py_int (scaled_progress (Finite p)) = Some n \<and> 30 \<le> n \<and> n \<le> 70))
   \<and> (\<forall>ps. sorted ps \<longrightarrow> sorted (List.map_filter (\<lambda>p. py_int (scaled_progress (Finite p))) ps))
   \<and> (run e self = (returned, w) \<and> Finished (output_path self) \<in> set (signals w) \<longrightarrow>
        (\<exists>ls. progress_values (signals w) =
                [10, 20] @ ls @ (if download_audio self then [70] else []) @ [100]
            \<and> (if download_video self
                then \<exists>vf reads. popen e (video_cmd vf (url self)) = Inr reads
                       \<and> ls = 30 # List.map_filter (\<lambda>p. py_int (scaled_progress (Finite p)))
                                     (percentages (consumed_lines reads))
                else ls = []))
        \<and> hd (progress_values (signals w)) = 10
        \<and> last (progress_values (signals w)) = 100
        \<and> ((\<forall>vf reads. popen e (video_cmd vf (url self)) = Inr reads \<longrightarrow>
               sorted (percentages (consumed_lines reads))
               \<and> list_all (\<lambda>p. 0 \<le> p \<and> p \<le> 100) (percentages (consumed_lines reads))) \<longrightarrow>
            sorted (progress_values (signals w))))"
proof -
  let ?f = "\<lambda>p. py_int (scaled_progress (Finite p))"
  have loop: "progress_values (signals (snd (read_loop reads w0))) =
                progress_values (signals w0) @ List.map_filter ?f (percentages (consumed_lines reads))"
    for reads w0
    by (simp add: read_loop_progress emitted_map_filter)
  have range: "\<exists>n. ?f p = Some n \<and> 30 \<le> n \<and> n \<le> 70" if "0 \<le> p \<and> p \<le> 100" for p
    using that scaled_in_range [of p] by simp
  have whole: "(\<exists>ls. progress_values (signals w) =
                [10, 20] @ ls @ (if download_audio self then [70] else []) @ [100]
            \<and> (if download_video self
                then \<exists>vf reads. popen e (video_cmd vf (url self)) = Inr reads
                       \<and> ls = 30 # List.map_filter ?f (percentages (consumed_lines reads))
                else ls = []))
        \<and> hd (progress_values (signals w)) = 10
        \<and> last (progress_values (signals w)) = 100
        \<and> ((\<forall>vf reads. popen e (video_cmd vf (url self)) = Inr reads \<longrightarrow>
               sorted (percentages (consumed_lines reads))
               \<and> list_all (\<lambda>p. 0 \<le> p \<and> p \<le> 100) (percentages (consumed_lines reads))) \<longrightarrow>
            sorted (progress_values (signals w)))"
    if run: "run e self = (returned, w)" and fin: "Finished (output_path self) \<in> set (signals w)"
  proof -
    from run_progress [OF run fin] obtain ls where
      pv: "progress_values (signals w) = [10, 20] @ ls @ (if download_audio self then [70] else []) @ [100]"
      and ls: "if download_video self
               then \<exists>vf reads. popen e (video_cmd vf (url self)) = Inr reads
                      \<and> ls = 30 # List.map_filter ?f (percentages (consumed_lines reads))
               else ls = []"
      unfolding emitted_map_filter by blast
    have ends: "hd (progress_values (signals w)) = 10" "last (progress_values (signals w)) = 100"
      by (simp_all add: pv)
    have srt: "sorted (progress_values (signals w))"
      if ok: "\<forall>vf reads. popen e (video_cmd vf (url self)) = Inr reads \<longrightarrow>
               sorted (percentages (consumed_lines reads))
               \<and> list_all (\<lambda>p. 0 \<le> p \<and> p \<le> 100) (percentages (consumed_lines reads))"
    proof -
      have "sorted ls \<and> list_all (\<lambda>n. 30 \<le> n \<and> n \<le> 70) ls"
      proof (cases "download_video self")
        case False
        with ls show ?thesis by simp
      next
        case True
        with ls obtain vf reads where r: "popen e (video_cmd vf (url self)) = Inr reads"
          and l: "ls = 30 # List.map_filter ?f (percentages (consumed_lines reads))" by auto
        from ok r have s: "sorted (percentages (consumed_lines reads))"
          and a: "list_all (\<lambda>p. 0 \<le> p \<and> p \<le> 100) (percentages (consumed_lines reads))" by blast+
        from scaled_sorted [OF s] scaled_range [OF a] show ?thesis
          by (auto simp: l list_all_iff)
      qed
      then have "sorted ([10, 20] @ ls @ (if download_audio self then [70] else []) @ [100])"
        by (auto simp: sorted_append list_all_iff)
      with pv show ?thesis by simp
    qed
    from pv ls ends srt show ?thesis by blast
  qed
  from on_line_progress loop range scaled_sorted whole show ?thesis by blast
qed


lemma line_values:
  "line_value line_info = None" "line_value line_5 = Some 5" "line_value line_100 = Some 100"
  "line_value line_150 = Some 150" "line_value line_na = None"
  by (simp_all add: line_value_def line_facts line_percents)

lemma run_env_increasing:
  "run env_increasing (demo_worker True True) =
     (True,
      \<lparr>invocations =
         [([''yt-dlp'', ''--dump-json'', ''https://youtu.be/x''], Exit 0 []),
          ([''yt-dlp'', ''-f'', ''bestvideo[ext=mp4]+bestaudio[ext=m4a]/best[ext=mp4]/best'',
            ''-o'', ''downloads/t.mp4'', ''--progress'', ''https://youtu.be/x''], Exit 0 []),
          ([''ffmpeg'', ''-i'', ''downloads/t.mp4'', ''-vn'', ''-acodec'', ''libmp3lame'', ''-q:a'',
            ''2'', ''downloads/t.mp3'', ''-y''], Exit 0 ''ffmpeg version 6.0'')],
       signals =
         [Status ''Getting video information...'', Progress 10, Progress 20,
          Status ''Downloading: t'', Status ''Downloading MP4 (video)...'',
          Log (nl # ''Downloading video...''), Progress 30,
          Log ''[youtube] Extracting URL: https://youtu.be/x'',
          Log ''[download]   5.0% of 3.20MiB at 1.00MiB/s ETA 00:03'', Progress 32,
          Log ''[download] 100.0% of 50.00MiB in 00:05'', Progress 70,
          Log ''MP4 download complete!'',
          Status ''Extracting MP3 (audio)...'', Log (nl # ''Extracting MP3 audio...''), Progress 70,
          Log ''MP3 extraction complete!'', Progress 100, Status ''Download complete!'',
          Finished ''downloads'']\<rparr>)"
  by (simp add: env_increasing_def gui_defs demo_defs on_line_def line_facts line_progresses)

lemma run_env_two_streams:
  "run env_two_streams (demo_worker True True) =
     (True,
      \<lparr>invocations =
         [([''yt-dlp'', ''--dump-json'', ''https://youtu.be/x''], Exit 0 []),
          ([''yt-dlp'', ''-f'', ''bestvideo[ext=mp4]+bestaudio[ext=m4a]/best[ext=mp4]/best'',
            ''-o'', ''downloads/t.mp4'', ''--progress'', ''https://youtu.be/x''], Exit 0 []),
          ([''ffmpeg'', ''-i'', ''downloads/t.mp4'', ''-vn'', ''-acodec'', ''libmp3lame'', ''-q:a'',
            ''2'', ''downloads/t.mp3'', ''-y''], Exit 0 ''ffmpeg version 6.0'')],
       signals =
         [Status ''Getting video information...'', Progress 10, Progress 20,
          Status ''Downloading: t'', Status ''Downloading MP4 (video)...'',
          Log (nl # ''Downloading video...''), Progress 30,
          Log ''[download] 100.0% of 50.00MiB in 00:05'', Progress 70,
          Log ''[download]   5.0% of 3.20MiB at 1.00MiB/s ETA 00:03'', Progress 32,
          Log ''[debug] buffer at 150% of target'', Progress 90,
          Log ''MP4 download complete!'',
          Status ''Extracting MP3 (audio)...'', Log (nl # ''Extracting MP3 audio...''), Progress 70,
          Log ''MP3 extraction complete!'', Progress 100, Status ''Download complete!'',
          Finished ''downloads'']\<rparr>)"
  by (simp add: env_two_streams_def gui_defs demo_defs on_line_def line_facts line_progresses)


theorem progress_scaled_from_percentages_witness:
  "line_value line_5 = Some 5
   \<and> py_int (scaled_progress (Finite 5)) = Some 32
   \<and> progress_values (signals (on_line line_5 init_world)) = [32]
   \<and> percentages (consumed_lines [(line_100, None), (line_5, None), ([], Some 0)]) = [100, 5]
   \<and> progress_values (signals (snd (read_loop [(line_100, None), (line_5, None), ([], Some 0)] init_world)))
       = [70, 32]
   \<and> (0::rat) \<le> 100 \<and> (100::rat) \<le> 100
   \<and> (\<exists>n. py_int (scaled_progress (Finite 100)) = Some n \<and> 30 \<le> n \<and> n \<le> 70)
   \<and> sorted [5, 100 :: rat]
   \<and> sorted (List.map_filter (\<lambda>p. py_int (scaled_progress (Finite p))) [5, 100])
   \<and> List.map_filter (\<lambda>p. py_int (scaled_progress (Finite p))) [5, 100] = [32, 70]
   \<and> percentages (consumed_lines [(line_info, None), (line_5, None), ([], None), (line_100, None), ([], Some 0)])
       = [5, 100]
   \<and> Finished (output_path (demo_worker True True))
       \<in> set (signals (snd (run env_increasing (demo_worker True True))))
   \<and> progress_values (signals (snd (run env_increasing (demo_worker True True))))
       = [10, 20, 30, 32, 70, 70, 100]
   \<and> sorted (progress_values (signals (snd (run env_increasing (demo_worker True True)))))
   \<and> hd (progress_values (signals (snd (run env_increasing (demo_worker True True))))) = 10
   \<and> last (progress_values (signals (snd (run env_increasing (demo_worker True True))))) = 100"
proof -
  let ?f = "\<lambda>p. py_int (scaled_progress (Finite p))"
  let ?w = "snd (run env_increasing (demo_worker True True))"
  note inst = progress_scaled_from_percentages
    [of env_increasing "demo_worker True True" "fst (run env_increasing (demo_worker True True))" ?w]
  have pc: "percentages (consumed_lines [(line_info, None), (line_5, None), ([], None), (line_100, None), ([], Some 0)])
              = [5, 100]"
    by (simp add: percentages_def List.map_filter_simps line_facts line_values)
  have pc2: "percentages (consumed_lines [(line_100, None), (line_5, None), ([], Some 0)]) = [100, 5]"
    by (simp add: percentages_def List.map_filter_simps line_facts line_values)
  have mf: "List.map_filter ?f [5, 100] = [32, 70]" "List.map_filter ?f [100, 5] = [70, 32]"
    by (simp_all add: List.map_filter_simps scaled_values)
  have init: "progress_values (signals init_world) = []" by (simp add: init_world_def)
  from inst have "progress_values (signals (on_line line_5 init_world)) =
      progress_values (signals init_world) @
        (case line_value line_5 of
           None \<Rightarrow> []
         | Some p \<Rightarrow> (case ?f p of None \<Rightarrow> [] | Some n \<Rightarrow> [n]))"
    by blast
  then have line: "progress_values (signals (on_line line_5 init_world)) = [32]"
    by (simp add: init line_values scaled_values)
  from inst have "progress_values (signals (snd (read_loop [(line_100, None), (line_5, None), ([], Some 0)] init_world))) =
      progress_values (signals init_world) @
        List.map_filter ?f (percentages (consumed_lines [(line_100, None), (line_5, None), ([], Some 0)]))"
    by blast
  then have loop: "progress_values (signals (snd (read_loop [(line_100, None), (line_5, None), ([], Some 0)] init_world)))
       = [70, 32]"
    by (simp only: pc2 mf init append_Nil)
  from inst have "(0::rat) \<le> 100 \<and> (100::rat) \<le> 100 \<longrightarrow> (\<exists>n. ?f 100 = Some n \<and> 30 \<le> n \<and> n \<le> 70)"
    by blast
  then have range: "\<exists>n. ?f 100 = Some n \<and> 30 \<le> n \<and> n \<le> 70" by simp
  have s: "sorted [5, 100 :: rat]" by simp
  from inst have "sorted [5, 100 :: rat] \<longrightarrow> sorted (List.map_filter ?f [5, 100])" by blast
  with s have srt: "sorted (List.map_filter ?f [5, 100])" by blast
  have fin: "Finished (output_path (demo_worker True True)) \<in> set (signals ?w)"
    by (simp add: run_env_increasing) (simp add: demo_worker_def)
  have ok: "\<forall>vf reads. popen env_increasing (video_cmd vf (url (demo_worker True True))) = Inr reads \<longrightarrow>
               sorted (percentages (consumed_lines reads))
               \<and> list_all (\<lambda>p. 0 \<le> p \<and> p \<le> 100) (percentages (consumed_lines reads))"
  proof (intro allI impI)
    fix vf reads
    assume "popen env_increasing (video_cmd vf (url (demo_worker True True))) = Inr reads"
    then have "reads = [(line_info, None), (line_5, None), ([], None), (line_100, None), ([], Some 0)]"
      by (simp add: env_increasing_def demo_env_def)
    then show "sorted (percentages (consumed_lines reads))
               \<and> list_all (\<lambda>p. 0 \<le> p \<and> p \<le> 100) (percentages (consumed_lines reads))"
      by (simp only: pc) simp
  qed
  have run: "run env_increasing (demo_worker True True) =
               (fst (run env_increasing (demo_worker True True)), ?w)" by simp
  from inst run fin ok have whole: "sorted (progress_values (signals ?w))"
    "hd (progress_values (signals ?w)) = 10" "last (progress_values (signals ?w)) = 100"
    by blast+
  have pv: "progress_values (signals ?w) = [10, 20, 30, 32, 70, 70, 100]"
    by (simp add: run_env_increasing)
  from line loop range s srt mf(1) pc pc2 fin pv whole line_values(2) scaled_values(2)
  show ?thesis by simp
qed

text \<open>
  The claim as stated fails. A download in two streams reports 100 percent of the first
  stream and then 5 percent of the second: the loop emits 70 and then 32. A line that
  mentions 150 percent makes it emit 90. The run still ends with the finished signal.
\<close>

theorem progress_decreases_and_exceeds_70:
  "progress_values (signals (snd (run env_two_streams (demo_worker True True))))
     = [10, 20, 30, 70, 32, 90, 70, 100]
   \<and> \<not> sorted (progress_values (signals (snd (run env_two_streams (demo_worker True True)))))
   \<and> line_emits line_150 = [90]
   \<and> progress_values (signals (snd (read_loop [(line_100, None), (line_5, None), ([], Some 0)] init_world)))
       = [70, 32]
   \<and> last (signals (snd (run env_two_streams (demo_worker True True)))) = Finished ''downloads''"
  by (simp add: run_env_two_streams line_emits_eq line_facts line_progresses on_line_def
      init_world_def emit_def)

section \<open>The log stream\<close>

text \<open>
  C7, as the code has it. For a line the loop reads that yields no percentage (it has no
  percent sign, or \<open>float\<close> or \<open>int\<close> raises on its number) no progress value is emitted,
  and the line is forwarded to the log stream with the white space at its two ends
  stripped: the loop emits \<open>line.strip()\<close>.
\<close>

theorem unparsable_line_logged_stripped:
  assumes "line \<noteq> []" and "CHR ''%'' \<notin> set line \<or> line_progress line = None"
  shows "on_line line w = emit (Log (strip line)) w
       \<and> read_loop ((line, poll) # reads) w = read_loop reads (emit (Log (strip line)) w)
       \<and> progress_values (signals (on_line line w)) = progress_values (signals w)"
  using assms by (auto simp: on_line_def Let_def)

theorem unparsable_line_logged_stripped_witness:
  "line_na \<noteq> [] \<and> CHR ''%'' \<in> set line_na \<and> line_progress line_na = None
   \<and> signals (on_line line_na init_world) = [Log ''[download] n/a% of unknown size'']
   \<and> line_info \<noteq> [] \<and> CHR ''%'' \<notin> set line_info
   \<and> signals (on_line line_info init_world) = [Log ''[youtube] Extracting URL: https://youtu.be/x'']"
  using unparsable_line_logged_stripped [of line_na init_world None "[]"]
    unparsable_line_logged_stripped [of line_info init_world None "[]"]
  by (simp add: line_facts line_progresses init_world_def emit_def)

text \<open>
  The claim as stated fails: \<open>readline\<close> returns the line with its line feed, and the log
  stream receives it without.
\<close>

theorem log_line_not_verbatim:
  "CHR ''%'' \<notin> set line_info
   \<and> line_info = ''[youtube] Extracting URL: https://youtu.be/x'' @ [nl]
   \<and> signals (on_line line_info init_world) = [Log ''[youtube] Extracting URL: https://youtu.be/x'']
   \<and> Log line_info \<notin> set (signals (on_line line_info init_world))"
  by (simp add: on_line_def line_facts init_world_def emit_def) (simp add: line_info_def)

end
